theory Spec2Isabelle
  imports Complex_Main
begin

section \<open>Data model of the viewer\<close>

text \<open>
  JavaScript numbers are modelled as exact reals (angles, fields of view, zoom levels) and as
  integers (pixel coordinates, millisecond clock readings). A division whose divisor can be
  zero is written out with its own result type, since JavaScript yields NaN there and HOL
  yields 0.
\<close>

record Position =
  longitude :: real
  latitude :: real

datatype side = LeftSide | RightSide | TopSide | BottomSide

text \<open>\<^verbatim>\<open>PanoSphereViewer.ClickData\<close>: the data of a \<^verbatim>\<open>click\<close> event. The texture
  coordinates are absent for a cubemap.\<close>

record ClickData =
  client_x :: int
  client_y :: int
  viewer_x :: int
  viewer_y :: int
  data_longitude :: real
  data_latitude :: real
  texture_x :: "real option"
  texture_y :: "real option"

text \<open>The notifications sent with \<^verbatim>\<open>this.trigger(name, ...)\<close>, in the order they are sent.\<close>

datatype event =
    SideReached side
  | PositionUpdated Position
  | ZoomUpdated real
  | Autorotate bool
  | GyroscopeUpdated bool
  | StereoUpdated bool
  | Click ClickData
  | DblClick ClickData

text \<open>\<^verbatim>\<open>this.config\<close>. \<^verbatim>\<open>None\<close> is \<^verbatim>\<open>null\<close> (or \<^verbatim>\<open>undefined\<close> for the legacy tilt options);
  \<^verbatim>\<open>transition\<close> holds the \<^verbatim>\<open>loader\<close> flag of the transition options.\<close>

record Config =
  panorama :: "string option"
  longitude_range :: "real list option"
  latitude_range :: "real list option"
  tilt_up_max :: "real option"
  tilt_down_max :: "real option"
  min_fov :: real
  max_fov :: real
  default_fov :: "real option"
  cache_texture :: real
  anim_speed :: real
  anim_lat :: real
  move_inertia :: bool
  transition :: "bool option"
  webgl :: bool

text \<open>A mouse history entry \<^verbatim>\<open>[time, x, y]\<close>.\<close>

type_synonym sample = "int \<times> int \<times> int"

text \<open>The two animations stored in \<^verbatim>\<open>prop.animation_promise\<close>: the one \<^verbatim>\<open>animate\<close> starts
  (longitude and latitude from start to end) and the inertia of a released drag
  (\<^verbatim>\<open>clientX\<close> and \<^verbatim>\<open>clientY\<close> from start to end). The last component is the duration.\<close>

datatype duration = DUndefined | DNum real | DStr string

datatype animation =
    Goto "real \<times> real" "real \<times> real" duration
  | Inertia "int \<times> int" "int \<times> int" real

text \<open>A pending \<^verbatim>\<open>setPanorama\<close>: the path, the position to rotate to once the texture is
  there, and whether the transition branch was taken.\<close>

record Loading =
  load_path :: string
  load_position :: "Position option"
  load_transition :: bool

text \<open>
  The viewer: \<^verbatim>\<open>this.config\<close>, the fields of \<^verbatim>\<open>this.prop\<close> under their own names, and
  what the modelled methods use of the objects around them. \<^verbatim>\<open>orientation_cb\<close> is whether the
  callback is set; \<^verbatim>\<open>autorotate_cb\<close> holds the closure's variable \<^verbatim>\<open>last\<close> (\<^verbatim>\<open>None\<close> inside
  is \<^verbatim>\<open>undefined\<close>); a timeout is held as the clock reading at which it is due.
  \<^verbatim>\<open>events\<close> is the trace of \<^verbatim>\<open>trigger\<close> calls.
\<close>

record Viewer =
  config :: Config
  needsUpdate :: bool
  isCubemap :: bool
  position :: Position
  zoom_lvl :: real
  vFov :: real
  hFov :: real
  aspect :: real
  size_width :: int
  size_height :: int
  move_speed :: real
  moving :: bool
  zooming :: bool
  start_mouse_x :: int
  start_mouse_y :: int
  mouse_x :: int
  mouse_y :: int
  mouse_history :: "sample list"
  gyro_alpha_offset :: real
  orientation_cb :: bool
  autorotate_cb :: "real option option"
  animation_promise :: "animation option"
  loading_promise :: "Loading option"
  start_timeout :: bool
  dblclick_data :: "ClickData option"
  dblclick_timeout :: "int option"
  stereoEffect :: bool
  scene :: bool
  loader_shown :: bool
  canvas_opacity :: "real option"
  events :: "event list"

definition trigger :: "event \<Rightarrow> Viewer \<Rightarrow> Viewer" where
  "trigger e s = s\<lparr>events := events s @ [e]\<rparr>"

section \<open>Zoom\<close>

text \<open>Modelled from the spec: \<^verbatim>\<open>PSVUtils.bound\<close> is not among the sources; the spec calls it a
  clamp of a value into \<^verbatim>\<open>[min, max]\<close>.\<close>

definition bound :: "real \<Rightarrow> real \<Rightarrow> real \<Rightarrow> real" where
  "bound x lo hi = max lo (min hi x)"

text \<open>\<^verbatim>\<open>Math.round\<close>: the nearest integer, a half rounded up.\<close>

definition Math_round :: "real \<Rightarrow> int" where
  "Math_round x = \<lfloor>x + 1 / 2\<rfloor>"

definition degToRad :: "real \<Rightarrow> real" where
  "degToRad d = d * pi / 180"

definition radToDeg :: "real \<Rightarrow> real" where
  "radToDeg r = r * 180 / pi"

definition zoom :: "real \<Rightarrow> Viewer \<Rightarrow> Viewer" where
  "zoom level s =
     (let lvl = bound (of_int (Math_round level)) 0 100;
          vf = max_fov (config s) + (lvl / 100) * (min_fov (config s) - max_fov (config s));
          hf = radToDeg (2 * arctan (tan (degToRad vf / 2) * aspect s));
          s1 = s\<lparr>zoom_lvl := lvl, vFov := vf, hFov := hf, needsUpdate := True\<rparr>
      in trigger (ZoomUpdated (zoom_lvl s1)) s1)"

section \<open>What the sources leave out\<close>

text \<open>
  The constants \<^verbatim>\<open>MOVE_THRESHOLD\<close>, \<^verbatim>\<open>INERTIA_WINDOW\<close>, \<^verbatim>\<open>DBLCLICK_DELAY\<close> and
  \<^verbatim>\<open>ANGLE_THRESHOLD\<close>, the pixel ratio in \<^verbatim>\<open>PanoSphereViewer.SYSTEM\<close> and the methods
  \<^verbatim>\<open>cleanPosition\<close>, \<^verbatim>\<open>applyRanges\<close> and \<^verbatim>\<open>PSVUtils.getShortestArc\<close> are defined in
  files that are not among the sources. The methods below take them as parameters. The two windows are lengths of time in milliseconds,
  hence natural numbers. \<^verbatim>\<open>cleanPosition\<close> and \<^verbatim>\<open>applyRanges\<close> change their argument in
  place and may read the viewer; here they return the new position, \<^verbatim>\<open>applyRanges\<close> with the
  sides it reached. Positions are given by longitude and latitude; one given by texture
  coordinates is turned into these by \<^verbatim>\<open>cleanPosition\<close> first.
\<close>

record env =
  MOVE_THRESHOLD :: int
  INERTIA_WINDOW :: nat
  DBLCLICK_DELAY :: nat
  ANGLE_THRESHOLD :: real
  pixelRatio :: real
  cleanPosition :: "Viewer \<Rightarrow> Position \<Rightarrow> Position"
  applyRanges :: "Viewer \<Rightarrow> Position \<Rightarrow> Position \<times> side list"
  getShortestArc :: "real \<Rightarrow> real \<Rightarrow> real"

datatype error = PSVError string | TypeError

text \<open>A quotient in JavaScript: with a zero divisor it is \<^verbatim>\<open>NaN\<close> or an infinity, no number
  (\<^verbatim>\<open>None\<close>).\<close>

definition js_div :: "real \<Rightarrow> real \<Rightarrow> real option" where
  "js_div a b = (if b = 0 then None else Some (a / b))"

section \<open>Navigation drivers\<close>

definition isAutorotateEnabled :: "Viewer \<Rightarrow> bool" where
  "isAutorotateEnabled s = (autorotate_cb s \<noteq> None)"

definition isGyroscopeEnabled :: "Viewer \<Rightarrow> bool" where
  "isGyroscopeEnabled s = orientation_cb s"

definition isStereoEnabled :: "Viewer \<Rightarrow> bool" where
  "isStereoEnabled s = stereoEffect s"

text \<open>Modelled from the spec: \<^verbatim>\<open>_reverseAutorotate\<close> is not among the sources; the spec says
  that autorotate is reversed in direction, which is the sign of \<^verbatim>\<open>config.anim_speed\<close> in
  the autorotate callback.\<close>

definition reverseAutorotate :: "Viewer \<Rightarrow> Viewer" where
  "reverseAutorotate s = s\<lparr>config := (config s)\<lparr>anim_speed := - anim_speed (config s)\<rparr>\<rparr>"

text \<open>The listener that \<^verbatim>\<open>_bindEvents\<close> attaches to \<^verbatim>\<open>_side-reached\<close>.\<close>

definition on_side_reached :: "side \<Rightarrow> Viewer \<Rightarrow> Viewer" where
  "on_side_reached sd s =
     (if isAutorotateEnabled s then
        (if sd = LeftSide \<or> sd = RightSide then reverseAutorotate s else s)
      else s)"

text \<open>\<^verbatim>\<open>this.trigger('_side-reached', side)\<close>: the notification, then its listener.\<close>

definition trigger_side_reached :: "side \<Rightarrow> Viewer \<Rightarrow> Viewer" where
  "trigger_side_reached sd s = on_side_reached sd (trigger (SideReached sd) s)"

definition rotate_view :: "env \<Rightarrow> Position \<Rightarrow> Viewer \<Rightarrow> Viewer" where
  "rotate_view e p s =
     (let p1 = cleanPosition e s p;
          (p2, sides) = applyRanges e s p1;
          s1 = fold trigger_side_reached sides s;
          s2 = s1\<lparr>position := \<lparr>longitude = longitude p2, latitude = latitude p2\<rparr>,
                  needsUpdate := True\<rparr>
      in trigger (PositionUpdated (position s2)) s2)"

definition stopAutorotate :: "Viewer \<Rightarrow> Viewer" where
  "stopAutorotate s =
     (let s1 = (if start_timeout s then s\<lparr>start_timeout := False\<rparr> else s)
      in if isAutorotateEnabled s1
         then trigger (Autorotate False) (s1\<lparr>autorotate_cb := None\<rparr>)
         else s1)"

text \<open>Whether the animation held in \<^verbatim>\<open>animation_promise\<close> is the inertia of a released
  drag.\<close>

definition inertia_running :: "Viewer \<Rightarrow> bool" where
  "inertia_running s =
     (case animation_promise s of
        Some (Inertia x y d) \<Rightarrow> True
      | Some (Goto x y d) \<Rightarrow> False
      | None \<Rightarrow> False)"

text \<open>\<^verbatim>\<open>stopAnimation\<close>: \<^verbatim>\<open>cancel()\<close> settles the promise, and the promise is forgotten. The
  inertia of \<^verbatim>\<open>_stopMoveInertia\<close> carries an \<^verbatim>\<open>ensure\<close> callback that runs when it settles
  and resets \<^verbatim>\<open>moving\<close>; the animation of \<^verbatim>\<open>animate\<close> carries none.\<close>

definition stopAnimation :: "Viewer \<Rightarrow> Viewer" where
  "stopAnimation s =
     (case animation_promise s of
        Some (Inertia x y d) \<Rightarrow> s\<lparr>moving := False, animation_promise := None\<rparr>
      | Some (Goto x y d) \<Rightarrow> s\<lparr>animation_promise := None\<rparr>
      | None \<Rightarrow> s)"

definition stopGyroscopeControl :: "Viewer \<Rightarrow> Viewer" where
  "stopGyroscopeControl s =
     (if isGyroscopeEnabled s
      then trigger (GyroscopeUpdated False) (s\<lparr>orientation_cb := False\<rparr>)
      else s)"

text \<open>Modelled from the spec: \<^verbatim>\<open>_stopAll\<close> is not among the sources; the spec has every
  start of a driver stop whichever driver was active before, a started autorotate stopping
  the inertia animation of a drag, and has stop-all remove the registered \<^verbatim>\<open>before-render\<close>
  hooks, which are those of autorotate and of the gyroscope. The three stop methods are the
  sources' own.\<close>

definition stopAll :: "Viewer \<Rightarrow> Viewer" where
  "stopAll s = stopGyroscopeControl (stopAnimation (stopAutorotate s))"

definition startAutorotate :: "Viewer \<Rightarrow> Viewer" where
  "startAutorotate s =
     trigger (Autorotate True) ((stopAll s)\<lparr>autorotate_cb := Some None\<rparr>)"

text \<open>The callback \<^verbatim>\<open>_getAutorotateUpdate\<close> returns, run on \<^verbatim>\<open>before-render\<close> with the
  frame's timestamp while it is registered.\<close>

definition autorotate_update :: "env \<Rightarrow> real \<Rightarrow> Viewer \<Rightarrow> Viewer" where
  "autorotate_update e timestamp s =
     (case autorotate_cb s of
        None \<Rightarrow> s
      | Some last_ts \<Rightarrow>
          (let elapsed = (case last_ts of None \<Rightarrow> 0 | Some l \<Rightarrow> timestamp - l);
               s1 = s\<lparr>autorotate_cb := Some (Some timestamp)\<rparr>
           in rotate_view e
                \<lparr>longitude = longitude (position s1) + anim_speed (config s1) * elapsed / 1000,
                 latitude = latitude (position s1)
                            - (latitude (position s1) - anim_lat (config s1)) / 200\<rparr>
                s1))"

datatype promise = Fulfilled | Rejected | Pending

text \<open>\<^verbatim>\<open>startGyroscopeControl\<close>: \<^verbatim>\<open>three\<close> is \<^verbatim>\<open>PSVUtils.checkTHREE('DeviceOrientationControls')\<close>,
  \<^verbatim>\<open>supported\<close> how \<^verbatim>\<open>SYSTEM.deviceOrientationSupported\<close> settles, and \<^verbatim>\<open>alpha\<close> the
  longitude of the camera direction after the first update of the controls.\<close>

definition startGyroscopeControl :: "bool \<Rightarrow> bool \<Rightarrow> real \<Rightarrow> Viewer \<Rightarrow> error + promise \<times> Viewer" where
  "startGyroscopeControl three supported alpha s =
     (if three then
        (if supported then
           Inr (Fulfilled,
                trigger (GyroscopeUpdated True)
                  ((stopAll s)\<lparr>gyro_alpha_offset := alpha, orientation_cb := True\<rparr>))
         else Inr (Rejected, s))
      else Inl (PSVError ''Missing Three.js components: DeviceOrientationControls.''))"

text \<open>The callback \<^verbatim>\<open>_getOrientationUpdate\<close> returns, run on \<^verbatim>\<open>before-render\<close> while it is
  registered; \<^verbatim>\<open>sphericalCoords\<close> is what \<^verbatim>\<open>vector3ToSphericalCoords\<close> gives for the
  device's direction.\<close>

definition orientation_update :: "Position \<Rightarrow> Viewer \<Rightarrow> Viewer" where
  "orientation_update sphericalCoords s =
     (if orientation_cb s then
        s\<lparr>position := \<lparr>longitude = longitude sphericalCoords,
                        latitude = latitude sphericalCoords\<rparr>,
          needsUpdate := True\<rparr>
      else s)"

text \<open>A duration is falsy when it is \<^verbatim>\<open>undefined\<close>, 0 or the empty string.\<close>

fun truthy :: "duration \<Rightarrow> bool" where
  "truthy DUndefined = False"
| "truthy (DNum x) = (x \<noteq> 0)"
| "truthy (DStr str) = (str \<noteq> [])"

fun is_number :: "duration \<Rightarrow> bool" where
  "is_number (DNum x) = True"
| "is_number d = False"

text \<open>\<^verbatim>\<open>animate\<close> returns \<^verbatim>\<open>D.resolved()\<close> (\<^verbatim>\<open>Fulfilled\<close>) or the promise of the animation it
  started (\<^verbatim>\<open>Pending\<close>). The branch that turns a speed into a duration is guarded by
  \<^verbatim>\<open>!duration\<close>, which the test before it has excluded.\<close>

definition animate :: "env \<Rightarrow> Position \<Rightarrow> duration \<Rightarrow> Viewer \<Rightarrow> promise \<times> Viewer" where
  "animate e p d s =
     (let s1 = stopAll s;
          p1 = cleanPosition e s1 p
      in if \<not> truthy d
            \<or> \<bar>longitude p1 - longitude (position s1)\<bar> < ANGLE_THRESHOLD e
              \<and> \<bar>latitude p1 - latitude (position s1)\<bar> < ANGLE_THRESHOLD e
         then (Fulfilled, rotate_view e p1 s1)
         else
           (let (p2, sides) = applyRanges e s1 p1;
                s2 = fold trigger_side_reached sides s1;
                d1 = (if \<not> truthy d \<and> \<not> is_number d
                      then DNum (arccos (cos (latitude (position s2)) * cos (latitude p2)
                                          * cos (longitude (position s2) - longitude p2)
                                        + sin (latitude (position s2)) * sin (latitude p2))
                                 / anim_speed (config s2) * 1000)
                      else d);
                tOffset = getShortestArc e (longitude (position s2)) (longitude p2)
            in (Pending,
                s2\<lparr>animation_promise :=
                     Some (Goto (longitude (position s2), longitude (position s2) + tOffset)
                                (latitude (position s2), latitude p2) d1)\<rparr>)))"

section \<open>Drag, mouse history and clicks\<close>

text \<open>A mouse event or a touch: the pointer's client coordinates.\<close>

record Pointer =
  clientX :: int
  clientY :: int

text \<open>\<^verbatim>\<open>sample[i]\<close>: an index past the three entries reads \<^verbatim>\<open>undefined\<close>.\<close>

fun entry :: "sample \<Rightarrow> nat \<Rightarrow> int option" where
  "entry (t, x, y) i =
     (if i = 0 then Some t else if i = 1 then Some x else if i = 2 then Some y else None)"

text \<open>Comparisons and \<^verbatim>\<open>&&\<close> as the loop of \<^verbatim>\<open>_logMouseMove\<close> uses them: a comparison with
  \<^verbatim>\<open>undefined\<close> is false, and \<^verbatim>\<open>null\<close>, \<^verbatim>\<open>undefined\<close> and 0 are falsy.\<close>

definition js_less :: "int option \<Rightarrow> real \<Rightarrow> bool" where
  "js_less v b = (case v of None \<Rightarrow> False | Some a \<Rightarrow> real_of_int a < b)"

definition pause_after :: "int option \<Rightarrow> int option \<Rightarrow> real \<Rightarrow> bool" where
  "pause_after previous v b =
     (case previous of
        None \<Rightarrow> False
      | Some p \<Rightarrow> p \<noteq> 0 \<and> (case v of None \<Rightarrow> False | Some a \<Rightarrow> real_of_int (a - p) > b))"

text \<open>
  The loop of \<^verbatim>\<open>_logMouseMove\<close>, with its variables \<^verbatim>\<open>i\<close> and \<^verbatim>\<open>previous\<close> and the history.
  It reads \<^verbatim>\<open>mouse_history[0][i]\<close>, entry \<^verbatim>\<open>i\<close> of the first sample, as the source does.
  \<^verbatim>\<open>splice(i, 1)\<close> removes the sample at \<^verbatim>\<open>i\<close>, \<^verbatim>\<open>splice(0, i)\<close> the first \<^verbatim>\<open>i\<close> samples.
\<close>

function log_loop :: "nat \<Rightarrow> int \<Rightarrow> nat \<Rightarrow> int option \<Rightarrow> sample list \<Rightarrow> sample list" where
  "log_loop w now i previous h =
     (if i < length h then
        (if js_less (entry (hd h) i) (real_of_int now - real w)
         then log_loop w now i previous (take i h @ drop (Suc i) h)
         else if pause_after previous (entry (hd h) i) (real w / 10)
         then log_loop w now 0 (entry (hd (drop i h)) 0) (drop i h)
         else log_loop w now (Suc i) (entry (hd h) (Suc i)) h)
      else h)"
  by pat_completeness auto
termination
proof (relation "inv_image (less_than <*lex*> less_than <*lex*> less_than)
                   (\<lambda>(w, now, i, previous, h).
                      (length h,
                       if i = 0 \<and> previous \<noteq> entry (hd h) 0 then 1 else 0 :: nat,
                       length h - i))", goal_cases)
  case 1
  show ?case by (intro wf_inv_image wf_lex_prod wf_less_than)
next
  case (2 w now i previous h)
  then have "length (take i h @ drop (Suc i) h) < length h"
    by simp
  then show ?case
    unfolding in_inv_image in_lex_prod prod.case less_than_iff by blast
next
  case (3 w now i previous h)
  show ?case
  proof (cases "i = 0")
    case True
    from 3(3) obtain p where p: "previous = Some p" "entry (hd h) 0 \<noteq> Some p"
      by (auto simp: pause_after_def True split: option.splits)
    then show ?thesis using True by simp
  next
    case False
    with 3(1) have "length (drop i h) < length h"
      by simp
    then show ?thesis
      unfolding in_inv_image in_lex_prod prod.case less_than_iff by blast
  qed
next
  case (4 w now i previous h)
  then have "length h - Suc i < length h - i"
    by simp
  then show ?case by simp
qed

declare log_loop.simps [simp del]

definition logMouseMove :: "env \<Rightarrow> int \<Rightarrow> Pointer \<Rightarrow> Viewer \<Rightarrow> Viewer" where
  "logMouseMove e now evt s =
     s\<lparr>mouse_history :=
         log_loop (INERTIA_WINDOW e) now 0 None
           (mouse_history s @ [(now, clientX evt, clientY evt)])\<rparr>"

text \<open>\<^verbatim>\<open>_startMove\<close>; \<^verbatim>\<open>now\<close> is what \<^verbatim>\<open>Date.now()\<close> returns in \<^verbatim>\<open>_logMouseMove\<close>.\<close>

definition startMove :: "env \<Rightarrow> int \<Rightarrow> Pointer \<Rightarrow> Viewer \<Rightarrow> Viewer" where
  "startMove e now evt s =
     (let s1 = stopAnimation (stopAutorotate s);
          s2 = s1\<lparr>mouse_x := clientX evt, start_mouse_x := clientX evt,
                  mouse_y := clientY evt, start_mouse_y := clientY evt,
                  moving := True, zooming := False\<rparr>;
          s3 = s2\<lparr>mouse_history := []\<rparr>
      in logMouseMove e now evt s3)"

text \<open>
  What \<^verbatim>\<open>_click\<close> gets from the coordinate transforms, which are not among the sources:
  \<^verbatim>\<open>None\<close> when \<^verbatim>\<open>viewerCoordsToVector3\<close> finds no intersection, else the spherical
  coordinates of the intersection and the texture coordinates that
  \<^verbatim>\<open>sphericalCoordsToTextureCoords\<close> gives for them.
\<close>

type_synonym hit = "(Position \<times> real \<times> real) option"

text \<open>The \<^verbatim>\<open>data\<close> that \<^verbatim>\<open>_click\<close> builds for a pointer whose ray meets the sphere; \<^verbatim>\<open>rect\<close>
  is the left and top of the container's bounding rectangle.\<close>

definition click_data :: "Viewer \<Rightarrow> int \<times> int \<Rightarrow> Position \<times> real \<times> real \<Rightarrow> Pointer \<Rightarrow> ClickData" where
  "click_data s rect found evt =
     (case found of (sphericalCoords, tx, ty) \<Rightarrow>
        \<lparr>client_x = clientX evt, client_y = clientY evt,
         viewer_x = clientX evt - fst rect, viewer_y = clientY evt - snd rect,
         data_longitude = longitude sphericalCoords,
         data_latitude = latitude sphericalCoords,
         texture_x = (if \<not> isCubemap s then Some tx else None),
         texture_y = (if \<not> isCubemap s then Some ty else None)\<rparr>)"

text \<open>
  \<^verbatim>\<open>_click\<close>, at clock reading \<^verbatim>\<open>now\<close>. \<^verbatim>\<open>setTimeout\<close> is modelled by the time at which the
  timeout is due. Reading \<^verbatim>\<open>dblclick_data.client_x\<close> of \<^verbatim>\<open>null\<close> is a \<^verbatim>\<open>TypeError\<close>.
\<close>

definition click :: "env \<Rightarrow> int \<Rightarrow> int \<times> int \<Rightarrow> hit \<Rightarrow> Pointer \<Rightarrow> Viewer \<Rightarrow> error + Viewer" where
  "click e now rect intersect evt s =
     (case intersect of
        None \<Rightarrow> Inr s
      | Some found \<Rightarrow>
          (let data = click_data s rect found evt
           in case dblclick_timeout s of
                None \<Rightarrow>
                  Inr ((trigger (Click data) s)
                         \<lparr>dblclick_data := Some data,
                          dblclick_timeout := Some (now + int (DBLCLICK_DELAY e))\<rparr>)
              | Some due \<Rightarrow>
                  (case dblclick_data s of
                     None \<Rightarrow> Inl TypeError
                   | Some first \<Rightarrow>
                       (let s1 = (if \<bar>client_x first - client_x data\<bar> < MOVE_THRESHOLD e
                                     \<and> \<bar>client_y first - client_y data\<bar> < MOVE_THRESHOLD e
                                  then trigger (DblClick first) s
                                  else s)
                        in Inr (s1\<lparr>dblclick_timeout := None, dblclick_data := None\<rparr>)))))"

text \<open>The callback of the double-click timeout, and the timeouts that have come due at
  \<^verbatim>\<open>now\<close>: a timeout runs before any event handled at or after its due time.\<close>

definition dblclick_expired :: "Viewer \<Rightarrow> Viewer" where
  "dblclick_expired s = s\<lparr>dblclick_timeout := None, dblclick_data := None\<rparr>"

definition run_timeouts :: "int \<Rightarrow> Viewer \<Rightarrow> Viewer" where
  "run_timeouts now s =
     (case dblclick_timeout s of
        None \<Rightarrow> s
      | Some due \<Rightarrow> if due \<le> now then dblclick_expired s else s)"

text \<open>A pointer-up that \<^verbatim>\<open>_stopMove\<close> classifies as a click, handled at time \<^verbatim>\<open>now\<close>.\<close>

definition click_at :: "env \<Rightarrow> int \<Rightarrow> int \<times> int \<Rightarrow> hit \<Rightarrow> Pointer \<Rightarrow> Viewer \<Rightarrow> error + Viewer" where
  "click_at e now rect intersect evt s = click e now rect intersect evt (run_timeouts now s)"

text \<open>Two pointer-ups classified as clicks, handled at \<^verbatim>\<open>t1\<close> and then at \<^verbatim>\<open>t2\<close>.\<close>

definition two_clicks ::
  "env \<Rightarrow> int \<Rightarrow> int \<times> int \<Rightarrow> hit \<Rightarrow> Pointer \<Rightarrow> int \<Rightarrow> int \<times> int \<Rightarrow> hit \<Rightarrow> Pointer \<Rightarrow> Viewer
     \<Rightarrow> error + Viewer" where
  "two_clicks e t1 rect1 hit1 evt1 t2 rect2 hit2 evt2 s =
     (case click_at e t1 rect1 hit1 evt1 s of
        Inl err \<Rightarrow> Inl err
      | Inr s1 \<Rightarrow> click_at e t2 rect2 hit2 evt2 s1)"

text \<open>\<^verbatim>\<open>_stopMoveInertia\<close>: reading \<^verbatim>\<open>mouse_history[0][1]\<close> of an empty history is a
  \<^verbatim>\<open>TypeError\<close>.\<close>

definition stopMoveInertia :: "env \<Rightarrow> Pointer \<Rightarrow> Viewer \<Rightarrow> error + Viewer" where
  "stopMoveInertia e evt s =
     (case mouse_history s of
        [] \<Rightarrow> Inl TypeError
      | (t, x, y) # rest \<Rightarrow>
          (let dx = clientX evt - x;
               dy = clientY evt - y;
               norm = sqrt (real_of_int (dx * dx + dy * dy))
           in Inr (s\<lparr>animation_promise :=
                       Some (Inertia (clientX evt, clientX evt + dx) (clientY evt, clientY evt + dy)
                               (norm * real (INERTIA_WINDOW e) / 100))\<rparr>)))"

text \<open>\<^verbatim>\<open>_stopMove\<close>; \<^verbatim>\<open>in_hud\<close> is whether \<^verbatim>\<open>PSVUtils.getClosest(evt.target, '.psv-hud')\<close>
  finds an element.\<close>

definition stopMove :: "env \<Rightarrow> int \<Rightarrow> bool \<Rightarrow> int \<times> int \<Rightarrow> hit \<Rightarrow> Pointer \<Rightarrow> Viewer \<Rightarrow> error + Viewer" where
  "stopMove e now in_hud rect intersect evt s =
     (if \<not> in_hud then Inr s
      else if moving s then
        (case (if \<bar>clientX evt - start_mouse_x s\<bar> < MOVE_THRESHOLD e
                  \<and> \<bar>clientY evt - start_mouse_y s\<bar> < MOVE_THRESHOLD e
               then (case click_at e now rect intersect evt s of
                       Inl err \<Rightarrow> Inl err
                     | Inr s1 \<Rightarrow> Inr (s1\<lparr>moving := False\<rparr>))
               else if move_inertia (config s) \<and> \<not> isGyroscopeEnabled s
               then stopMoveInertia e evt (logMouseMove e now evt s)
               else Inr (s\<lparr>moving := False\<rparr>)) of
           Inl err \<Rightarrow> Inl err
         | Inr s2 \<Rightarrow> Inr (s2\<lparr>mouse_history := [], zooming := False\<rparr>))
      else Inr (s\<lparr>zooming := False\<rparr>))"

text \<open>\<^verbatim>\<open>_move\<close>, for a pointer event or a tick of the inertia animation (\<^verbatim>\<open>log = false\<close>).
  \<^verbatim>\<open>None\<close>: the viewer's width or height is 0 and the rotation is no number.\<close>

definition move :: "env \<Rightarrow> int \<Rightarrow> bool \<Rightarrow> Pointer \<Rightarrow> Viewer \<Rightarrow> Viewer option" where
  "move e now logging evt s =
     (if moving s then
        (case (js_div (real_of_int (clientX evt - mouse_x s)) (real_of_int (size_width s)),
               js_div (real_of_int (clientY evt - mouse_y s)) (real_of_int (size_height s))) of
           (Some qx, Some qy) \<Rightarrow>
             (let rotation_longitude = qx * move_speed s * hFov s * pixelRatio e;
                  rotation_latitude = qy * move_speed s * vFov s * pixelRatio e;
                  s1 = (if isGyroscopeEnabled s
                        then s\<lparr>gyro_alpha_offset := gyro_alpha_offset s + rotation_longitude\<rparr>
                        else rotate_view e
                               \<lparr>longitude = longitude (position s) - rotation_longitude,
                                latitude = latitude (position s) + rotation_latitude\<rparr> s);
                  s2 = s1\<lparr>mouse_x := clientX evt, mouse_y := clientY evt\<rparr>
              in Some (if logging then logMouseMove e now evt s2 else s2))
         | _ \<Rightarrow> None)
      else Some s)"

text \<open>\<^verbatim>\<open>_onKeyDown\<close>, by the key it resolves.\<close>

datatype key =
  ArrowUp | ArrowDown | ArrowRight | ArrowLeft | PageUp | PlusKey | PageDown | MinusKey | OtherKey

definition onKeyDown :: "env \<Rightarrow> key \<Rightarrow> Viewer \<Rightarrow> Viewer" where
  "onKeyDown e k s =
     (let dLat = (case k of ArrowUp \<Rightarrow> 1 / 100 | ArrowDown \<Rightarrow> - (1 / 100) | _ \<Rightarrow> 0);
          dLong = (case k of ArrowRight \<Rightarrow> 1 / 100 | ArrowLeft \<Rightarrow> - (1 / 100) | _ \<Rightarrow> 0);
          dZoom = (case k of PageUp \<Rightarrow> 1 | PlusKey \<Rightarrow> 1 | PageDown \<Rightarrow> - 1 | MinusKey \<Rightarrow> - 1
                   | _ \<Rightarrow> 0)
      in if dZoom \<noteq> 0 then zoom (zoom_lvl s + dZoom) s
         else if dLat \<noteq> 0 \<or> dLong \<noteq> 0
         then rotate_view e
                \<lparr>longitude = longitude (position s) + dLong * move_speed s * hFov s,
                 latitude = latitude (position s) + dLat * move_speed s * vFov s\<rparr> s
         else s)"

section \<open>Loading a panorama\<close>

text \<open>The second argument of \<^verbatim>\<open>setPanorama\<close>: left out, a boolean (then it is the
  transition flag) or a position.\<close>

datatype pos_arg = PosUndefined | PosBool bool | PosObject Position

text \<open>
  \<^verbatim>\<open>setPanorama\<close>, up to its return: the error thrown, if any, and the viewer as the call
  leaves it. \<^verbatim>\<open>loading_promise\<close> stays set until the promise settles, when its \<^verbatim>\<open>ensure\<close>
  callback resets it to \<^verbatim>\<open>null\<close>. Loading the texture is outside the model.
\<close>

definition setPanorama :: "env \<Rightarrow> string \<Rightarrow> pos_arg \<Rightarrow> bool \<Rightarrow> Viewer \<Rightarrow> error option \<times> Viewer" where
  "setPanorama e path position_arg transition_arg s =
     (if loading_promise s \<noteq> None then (Some (PSVError ''Loading already in progress''), s)
      else
        (let with_transition = (case position_arg of PosBool b \<Rightarrow> b | _ \<Rightarrow> transition_arg);
             target = (case position_arg of PosObject p \<Rightarrow> Some p | _ \<Rightarrow> None)
         in if with_transition \<and> isCubemap s
            then (Some (PSVError ''Transition is not available with cubemap.''), s)
            else
              (let cleaned = (case target of None \<Rightarrow> None | Some p \<Rightarrow> Some (cleanPosition e s p));
                   s1 = (case target of None \<Rightarrow> s | Some p \<Rightarrow> stopAll s);
                   s2 = s1\<lparr>config := (config s1)\<lparr>panorama := Some path\<rparr>\<rparr>
               in if \<not> with_transition \<or> transition (config s2) = None \<or> \<not> scene s2
                  then (None,
                        s2\<lparr>loader_shown := True,
                           canvas_opacity := (case canvas_opacity s2 of None \<Rightarrow> None
                                              | Some v \<Rightarrow> Some 0),
                           loading_promise :=
                             Some \<lparr>load_path = path, load_position = cleaned,
                                   load_transition = False\<rparr>\<rparr>)
                  else (None,
                        s2\<lparr>loader_shown :=
                             (if transition (config s2) = Some True then True else loader_shown s2),
                           loading_promise :=
                             Some \<lparr>load_path = path, load_position = cleaned,
                                   load_transition = True\<rparr>\<rparr>))))"

section \<open>Construction\<close>

text \<open>What the constructor reads outside the configuration: whether \<^verbatim>\<open>options.container\<close>
  is given, the capabilities in \<^verbatim>\<open>PanoSphereViewer.SYSTEM\<close>, whether the canvas renderer
  scripts are loaded, and \<^verbatim>\<open>PanoSphereViewer.DEFAULTS.cache_texture\<close>.\<close>

record System =
  container :: bool
  isCanvasSupported :: bool
  isWebGLSupported :: bool
  canvas_renderer :: bool
  default_cache_texture :: real

text \<open>Modelled from the spec: \<^verbatim>\<open>PSVUtils.isInteger\<close> is not among the sources; the spec speaks
  of a non-integer cache size.\<close>

definition isInteger :: "real \<Rightarrow> bool" where
  "isInteger x = (real_of_int \<lfloor>x\<rfloor> = x)"

text \<open>The checks of the constructor on \<^verbatim>\<open>this.config\<close>, in the order of the source, each
  with the warnings sent to \<^verbatim>\<open>console.warn\<close> so far.\<close>

definition check_longitude_range :: "Config \<times> string list \<Rightarrow> Config \<times> string list" where
  "check_longitude_range cw =
     (case cw of (c, ws) \<Rightarrow>
        (case longitude_range c of
           None \<Rightarrow> (c, ws)
         | Some r \<Rightarrow>
             if length r \<noteq> 2
             then (c\<lparr>longitude_range := None\<rparr>,
                   ws @ [''longitude_range must have exactly two elements.''])
             else (c, ws)))"

definition check_latitude_range :: "Config \<times> string list \<Rightarrow> Config \<times> string list" where
  "check_latitude_range cw =
     (case cw of (c, ws) \<Rightarrow>
        (case latitude_range c of
           Some r \<Rightarrow>
             if length r \<noteq> 2
             then (c\<lparr>latitude_range := None\<rparr>,
                   ws @ [''latitude_range must have exactly two elements.''])
             else if r ! 0 > r ! 1
             then (c\<lparr>latitude_range := Some [r ! 1, r ! 0]\<rparr>,
                   ws @ [''latitude_range values must be ordered.''])
             else (c, ws)
         | None \<Rightarrow>
             if tilt_up_max c \<noteq> None \<or> tilt_down_max c \<noteq> None
             then (c\<lparr>latitude_range :=
                        Some [case tilt_down_max c of Some d \<Rightarrow> d - pi / 4 | None \<Rightarrow> - (pi / 2),
                              case tilt_up_max c of Some u \<Rightarrow> u + pi / 4 | None \<Rightarrow> pi / 2]\<rparr>,
                   ws @ [''tilt_up_max and tilt_down_max are deprecated, use latitude_range instead.''])
             else (c, ws)))"

definition check_fov_order :: "Config \<times> string list \<Rightarrow> Config \<times> string list" where
  "check_fov_order cw =
     (case cw of (c, ws) \<Rightarrow>
        if max_fov c < min_fov c
        then (c\<lparr>max_fov := min_fov c, min_fov := max_fov c\<rparr>,
              ws @ [''max_fov cannot be lower than min_fov.''])
        else (c, ws))"

definition check_cache_texture :: "System \<Rightarrow> Config \<times> string list \<Rightarrow> Config \<times> string list" where
  "check_cache_texture sys cw =
     (case cw of (c, ws) \<Rightarrow>
        if cache_texture c \<noteq> 0 \<and> (\<not> isInteger (cache_texture c) \<or> cache_texture c < 0)
        then (c\<lparr>cache_texture := default_cache_texture sys\<rparr>,
              ws @ [''invalid value for cache_texture''])
        else (c, ws))"

definition bound_fov :: "Config \<times> string list \<Rightarrow> Config \<times> string list" where
  "bound_fov cw =
     (case cw of (c, ws) \<Rightarrow>
        (let c1 = c\<lparr>min_fov := bound (min_fov c) 1 179\<rparr>;
             c2 = c1\<lparr>max_fov := bound (max_fov c1) 1 179\<rparr>
         in (c2, ws)))"

definition set_default_fov :: "Config \<times> string list \<Rightarrow> Config \<times> string list" where
  "set_default_fov cw =
     (case cw of (c, ws) \<Rightarrow>
        (case default_fov c of
           None \<Rightarrow> (c\<lparr>default_fov := Some (max_fov c / 2 + min_fov c / 2)\<rparr>, ws)
         | Some d \<Rightarrow> (c\<lparr>default_fov := Some (bound d (min_fov c) (max_fov c))\<rparr>, ws)))"

text \<open>
  The constructor from its first check to the default field of view: the error it throws, or
  the configuration and the warnings. The deprecation notices for \<^verbatim>\<open>panorama_roll\<close> and
  \<^verbatim>\<open>gyroscope\<close>, between the cache check and the bounds, touch no field modelled here.
\<close>

definition check_config :: "System \<Rightarrow> Config \<Rightarrow> error + Config \<times> string list" where
  "check_config sys c =
     (if \<not> container sys then Inl (PSVError ''No value given for container.'')
      else if \<not> isCanvasSupported sys then Inl (PSVError ''Canvas is not supported.'')
      else if (\<not> isWebGLSupported sys \<or> \<not> webgl c) \<and> \<not> canvas_renderer sys
      then Inl (PSVError ''Missing Three.js components: CanvasRenderer, Projector.'')
      else Inr (set_default_fov (bound_fov (check_cache_texture sys (check_fov_order
                  (check_latitude_range (check_longitude_range (c, []))))))))"

text \<open>
  \<^verbatim>\<open>tempZoom\<close>, and the default zoom level applied with it. \<^verbatim>\<open>None\<close> is \<^verbatim>\<open>NaN\<close>: with
  \<^verbatim>\<open>max_fov = min_fov\<close> the quotient is 0/0 (the default field of view lies between the two),
  \<^verbatim>\<open>Math.round\<close> of it is \<^verbatim>\<open>NaN\<close>, and so is the level \<^verbatim>\<open>tempZoom - 2 * (tempZoom - 50)\<close>
  that \<^verbatim>\<open>zoom\<close> is called with. A \<^verbatim>\<open>null\<close> default field of view counts as 0 in the
  subtraction.
\<close>

definition tempZoom :: "Config \<Rightarrow> real option" where
  "tempZoom c =
     (case js_div ((case default_fov c of None \<Rightarrow> 0 | Some d \<Rightarrow> d) - min_fov c)
                  (max_fov c - min_fov c) of
        None \<Rightarrow> None
      | Some q \<Rightarrow> Some (real_of_int (Math_round (q * 100))))"

definition default_zoom :: "Viewer \<Rightarrow> Viewer option" where
  "default_zoom s =
     (case tempZoom (config s) of
        None \<Rightarrow> None
      | Some t \<Rightarrow> Some (zoom (t - 2 * (t - 50)) s))"

text \<open>The viewer as the constructor sets \<^verbatim>\<open>this.prop\<close>, before any container or scene
  exists.\<close>

definition initial_viewer :: "Config \<Rightarrow> Viewer" where
  "initial_viewer c =
     \<lparr>config = c, needsUpdate = True, isCubemap = False,
      position = \<lparr>longitude = 0, latitude = 0\<rparr>,
      zoom_lvl = 0, vFov = 0, hFov = 0, aspect = 0, size_width = 0, size_height = 0,
      move_speed = 0.1,
      moving = False, zooming = False,
      start_mouse_x = 0, start_mouse_y = 0, mouse_x = 0, mouse_y = 0,
      mouse_history = [], gyro_alpha_offset = 0,
      orientation_cb = False, autorotate_cb = None, animation_promise = None,
      loading_promise = None, start_timeout = False,
      dblclick_data = None, dblclick_timeout = None,
      stereoEffect = False, scene = False, loader_shown = False, canvas_opacity = None,
      events = []\<rparr>"

section \<open>The calls that reach the camera\<close>

text \<open>
  The public methods, input handlers and \<^verbatim>\<open>before-render\<close> callbacks modelled above, as one
  type of calls. \<^verbatim>\<open>perform\<close> gives the viewer after a call, or \<^verbatim>\<open>None\<close> when the call
  throws or computes with a quotient that is no number.
\<close>

datatype call =
    Rotate Position
  | Zoom real
  | KeyDown key
  | StartAutorotate
  | StopAutorotate
  | AutorotateUpdate real
  | StartGyroscopeControl bool bool real
  | StopGyroscopeControl
  | OrientationUpdate Position
  | Animate Position duration
  | StopAnimation
  | SetPanorama string pos_arg bool
  | StartMove int Pointer
  | Move int bool Pointer
  | StopMove int bool "int \<times> int" hit Pointer

fun perform :: "env \<Rightarrow> call \<Rightarrow> Viewer \<Rightarrow> Viewer option" where
  "perform e (Rotate p) s = Some (rotate_view e p s)"
| "perform e (Zoom level) s = Some (zoom level s)"
| "perform e (KeyDown k) s = Some (onKeyDown e k s)"
| "perform e StartAutorotate s = Some (startAutorotate s)"
| "perform e StopAutorotate s = Some (stopAutorotate s)"
| "perform e (AutorotateUpdate timestamp) s = Some (autorotate_update e timestamp s)"
| "perform e (StartGyroscopeControl three supported alpha) s =
     (case startGyroscopeControl three supported alpha s of
        Inl err \<Rightarrow> None
      | Inr (settled, s1) \<Rightarrow> Some s1)"
| "perform e StopGyroscopeControl s = Some (stopGyroscopeControl s)"
| "perform e (OrientationUpdate sphericalCoords) s = Some (orientation_update sphericalCoords s)"
| "perform e (Animate p d) s = Some (snd (animate e p d s))"
| "perform e StopAnimation s = Some (stopAnimation s)"
| "perform e (SetPanorama path position_arg transition_arg) s =
     (case setPanorama e path position_arg transition_arg s of
        (None, s1) \<Rightarrow> Some s1
      | (Some err, s1) \<Rightarrow> None)"
| "perform e (StartMove now evt) s = Some (startMove e now evt s)"
| "perform e (Move now logging evt) s = move e now logging evt s"
| "perform e (StopMove now in_hud rect intersect evt) s =
     (case stopMove e now in_hud rect intersect evt s of
        Inl err \<Rightarrow> None
      | Inr s1 \<Rightarrow> Some s1)"

text \<open>
  A call changes the position through \<^verbatim>\<open>rotate\<close>: it leaves the position as it was, or the
  viewer it leaves is the one a call of \<^verbatim>\<open>rotate\<close> leaves, made with some argument on a
  viewer of the same configuration, position and zoom, apart from the pointer bookkeeping
  (\<^verbatim>\<open>mouse_x\<close>, \<^verbatim>\<open>mouse_y\<close>, \<^verbatim>\<open>mouse_history\<close>) that \<^verbatim>\<open>_move\<close> does afterwards. The stored
  position is then the cleaned and range-constrained argument, the dirty flag is set and the
  last notification is \<^verbatim>\<open>position-updated\<close>.
\<close>

definition through_rotate :: "env \<Rightarrow> Viewer \<Rightarrow> Viewer \<Rightarrow> bool" where
  "through_rotate e s s' =
     (position s' = position s
      \<or> (\<exists>p s0. config s0 = config s \<and> position s0 = position s
                  \<and> zoom_lvl s0 = zoom_lvl s \<and> vFov s0 = vFov s \<and> hFov s0 = hFov s
                  \<and> s' = (rotate_view e p s0)\<lparr>mouse_x := mouse_x s', mouse_y := mouse_y s',
                                               mouse_history := mouse_history s'\<rparr>))"

fun is_orientation_update :: "call \<Rightarrow> bool" where
  "is_orientation_update (OrientationUpdate sphericalCoords) = True"
| "is_orientation_update c = False"

section \<open>Reading the active drivers\<close>



section \<open>An instance of the parameters\<close>

text \<open>Modelled from the spec: \<^verbatim>\<open>cleanPosition\<close> is not among the sources; the spec has the
  longitude reduced into \<^verbatim>\<open>[0, 2\<pi>)\<close> and the latitude clamped into \<^verbatim>\<open>[-\<pi>/2, \<pi>/2]\<close>.\<close>

definition spec_cleanPosition :: "Viewer \<Rightarrow> Position \<Rightarrow> Position" where
  "spec_cleanPosition s p =
     \<lparr>longitude = longitude p - 2 * pi * real_of_int \<lfloor>longitude p / (2 * pi)\<rfloor>,
      latitude = bound (latitude p) (- (pi / 2)) (pi / 2)\<rparr>"

text \<open>Modelled from the spec: \<^verbatim>\<open>applyRanges\<close> is not among the sources; the spec has it clamp
  the position against the configured ranges and return the sides reached, a longitude range
  whose minimum exceeds its maximum crossing the seam at 0. An unconfigured range constrains
  nothing.\<close>

definition spec_applyRanges :: "Viewer \<Rightarrow> Position \<Rightarrow> Position \<times> side list" where
  "spec_applyRanges s p =
     (let lo = longitude p; la = latitude p;
          (lo1, sides1) =
            (case longitude_range (config s) of
               Some [a, b] \<Rightarrow>
                 if a \<le> b
                 then (if lo < a then (a, [LeftSide]) else if lo > b then (b, [RightSide]) else (lo, []))
                 else (if b < lo \<and> lo < a
                       then (if lo - b < a - lo then (b, [RightSide]) else (a, [LeftSide]))
                       else (lo, []))
             | _ \<Rightarrow> (lo, []));
          (la1, sides2) =
            (case latitude_range (config s) of
               Some [a, b] \<Rightarrow>
                 if la < a then (a, [BottomSide]) else if la > b then (b, [TopSide]) else (la, [])
             | _ \<Rightarrow> (la, []))
      in (\<lparr>longitude = lo1, latitude = la1\<rparr>, sides1 @ sides2))"

text \<open>The parameters used in the examples: thresholds of 4 pixels and 1/1000 radian, windows
  of 300 ms, a pixel ratio of 1, and the arc from one longitude to another taken as their
  difference.\<close>

definition spec_env :: env where
  "spec_env =
     \<lparr>MOVE_THRESHOLD = 4, INERTIA_WINDOW = 300, DBLCLICK_DELAY = 300,
      ANGLE_THRESHOLD = 1 / 1000, pixelRatio = 1,
      cleanPosition = spec_cleanPosition, applyRanges = spec_applyRanges,
      getShortestArc = (\<lambda>a b. b - a)\<rparr>"

text \<open>A configuration with no range, fields of view from 30 to 90 and autorotate at one
  radian per second towards latitude 0.\<close>

definition example_config :: Config where
  "example_config =
     \<lparr>panorama = None, longitude_range = None, latitude_range = None,
      tilt_up_max = None, tilt_down_max = None,
      min_fov = 30, max_fov = 90, default_fov = None, cache_texture = 0,
      anim_speed = 1, anim_lat = 0, move_inertia = True, transition = None, webgl = True\<rparr>"

text \<open>The samples of a history in the order of their clock readings.\<close>

definition in_order :: "sample list \<Rightarrow> bool" where
  "in_order h = sorted_wrt (\<lambda>a b. fst a \<le> fst b) h"

text \<open>Autorotate under way, last ticked at 0 ms, the camera at latitude 1/5.\<close>

definition autorotate_example :: Viewer where
  "autorotate_example =
     (startAutorotate (initial_viewer example_config))
       \<lparr>autorotate_cb := Some (Some 0), position := \<lparr>longitude = 0, latitude = 1 / 5\<rparr>\<rparr>"

text \<open>A browser with canvas and WebGL, the container given, the cache off by default.\<close>

definition example_system :: System where
  "example_system =
     \<lparr>container = True, isCanvasSupported = True, isWebGLSupported = True,
      canvas_renderer = False, default_cache_texture = 0\<rparr>"

text \<open>Options with a longitude range of one element, an inverted latitude range, inverted
  field of view bounds outside \<^verbatim>\<open>[1, 179]\<close> and a cache size of 2.5.\<close>

definition malformed_config :: Config where
  "malformed_config =
     example_config\<lparr>longitude_range := Some [1], latitude_range := Some [1 / 2, - (1 / 2)],
        min_fov := 200, max_fov := 1 / 2, cache_texture := 5 / 2\<rparr>"

text \<open>Options with both field of view bounds at 60, and their checked form.\<close>

definition fixed_fov_config :: Config where
  "fixed_fov_config = example_config\<lparr>min_fov := 60, max_fov := 60\<rparr>"

definition fixed_fov_checked :: Config where
  "fixed_fov_checked = example_config\<lparr>min_fov := 60, max_fov := 60, default_fov := Some 60\<rparr>"

text \<open>The same configuration with the latitude confined to \<^verbatim>\<open>[-1/10, 1/10]\<close>, and the
  viewer under gyroscope control with it.\<close>

definition ranged_config :: Config where
  "ranged_config = example_config\<lparr>latitude_range := Some [- (1 / 10), 1 / 10]\<rparr>"

definition gyro_example :: Viewer where
  "gyro_example =
     trigger (GyroscopeUpdated True)
       ((initial_viewer ranged_config)\<lparr>gyro_alpha_offset := 0, orientation_cb := True\<rparr>)"


definition seam_example :: Viewer where
  "seam_example = (initial_viewer example_config)\<lparr>position := \<lparr>longitude = 1 / 2000, latitude = 0\<rparr>\<rparr>"

text \<open>A ray that meets the sphere at longitude 0 and latitude 0, texture pixel (5, 6).\<close>

definition example_hit :: "Position \<times> real \<times> real" where
  "example_hit = (\<lparr>longitude = 0, latitude = 0\<rparr>, 5, 6)"

text \<open>A drag under way whose history holds two samples, taken at 100 and at 800.\<close>

definition history_example :: Viewer where
  "history_example =
     (initial_viewer example_config)\<lparr>moving := True,
        mouse_history := [(100, 5, 6), (800, 900, 900)]\<rparr>"

section \<open>Facts shared by the proofs\<close>

lemma stopAutorotate_fields:
  "autorotate_cb (stopAutorotate s) = None"
  "animation_promise (stopAutorotate s) = animation_promise s"
  "orientation_cb (stopAutorotate s) = orientation_cb s"
  "position (stopAutorotate s) = position s"
  "config (stopAutorotate s) = config s"
  "moving (stopAutorotate s) = moving s"
  "loading_promise (stopAutorotate s) = loading_promise s"
  "inertia_running (stopAutorotate s) = inertia_running s"
  by (simp_all add: stopAutorotate_def isAutorotateEnabled_def trigger_def Let_def
      inertia_running_def)

lemma stopAnimation_fields:
  "animation_promise (stopAnimation s) = None"
  "autorotate_cb (stopAnimation s) = autorotate_cb s"
  "orientation_cb (stopAnimation s) = orientation_cb s"
  "position (stopAnimation s) = position s"
  "config (stopAnimation s) = config s"
  "moving (stopAnimation s) = (moving s \<and> \<not> inertia_running s)"
  "events (stopAnimation s) = events s"
  "loading_promise (stopAnimation s) = loading_promise s"
  by (simp_all add: stopAnimation_def inertia_running_def split: option.splits animation.splits)

lemma stopGyroscopeControl_fields:
  "orientation_cb (stopGyroscopeControl s) = False"
  "animation_promise (stopGyroscopeControl s) = animation_promise s"
  "autorotate_cb (stopGyroscopeControl s) = autorotate_cb s"
  "position (stopGyroscopeControl s) = position s"
  "config (stopGyroscopeControl s) = config s"
  "moving (stopGyroscopeControl s) = moving s"
  "loading_promise (stopGyroscopeControl s) = loading_promise s"
  by (simp_all add: stopGyroscopeControl_def isGyroscopeEnabled_def trigger_def)

lemma stopAll_fields:
  "autorotate_cb (stopAll s) = None"
  "animation_promise (stopAll s) = None"
  "orientation_cb (stopAll s) = False"
  "position (stopAll s) = position s"
  "config (stopAll s) = config s"
  "moving (stopAll s) = (moving s \<and> \<not> inertia_running s)"
  "loading_promise (stopAll s) = loading_promise s"
  by (simp_all add: stopAll_def stopAutorotate_fields stopAnimation_fields
      stopGyroscopeControl_fields)

lemma trigger_side_reached_fields:
  "position (trigger_side_reached sd s) = position s"
  "animation_promise (trigger_side_reached sd s) = animation_promise s"
  "autorotate_cb (trigger_side_reached sd s) = autorotate_cb s"
  "orientation_cb (trigger_side_reached sd s) = orientation_cb s"
  "moving (trigger_side_reached sd s) = moving s"
  "events (trigger_side_reached sd s) = events s @ [SideReached sd]"
  by (simp_all add: trigger_side_reached_def on_side_reached_def reverseAutorotate_def
      isAutorotateEnabled_def trigger_def)

lemma fold_side_reached_fields:
  "position (fold trigger_side_reached sides s) = position s"
  "animation_promise (fold trigger_side_reached sides s) = animation_promise s"
  "autorotate_cb (fold trigger_side_reached sides s) = autorotate_cb s"
  "orientation_cb (fold trigger_side_reached sides s) = orientation_cb s"
  "moving (fold trigger_side_reached sides s) = moving s"
  "events (fold trigger_side_reached sides s) = events s @ map SideReached sides"
  by (induction sides arbitrary: s; simp add: trigger_side_reached_fields)+

lemma rotate_fields:
  "position (rotate_view e p s) = fst (applyRanges e s (cleanPosition e s p))"
  "needsUpdate (rotate_view e p s)"
  "animation_promise (rotate_view e p s) = animation_promise s"
  "autorotate_cb (rotate_view e p s) = autorotate_cb s"
  "orientation_cb (rotate_view e p s) = orientation_cb s"
  "moving (rotate_view e p s) = moving s"
  "events (rotate_view e p s) =
     events s @ map SideReached (snd (applyRanges e s (cleanPosition e s p)))
       @ [PositionUpdated (fst (applyRanges e s (cleanPosition e s p)))]"
  by (simp_all add: rotate_view_def Let_def trigger_def fold_side_reached_fields split: prod.splits)

lemma logMouseMove_fields:
  "position (logMouseMove e now evt s) = position s"
  "events (logMouseMove e now evt s) = events s"
  "needsUpdate (logMouseMove e now evt s) = needsUpdate s"
  by (simp_all add: logMouseMove_def)

lemma startMove_fields:
  "moving (startMove e now evt s)"
  "autorotate_cb (startMove e now evt s) = None"
  "animation_promise (startMove e now evt s) = None"
  "orientation_cb (startMove e now evt s) = orientation_cb s"
  "position (startMove e now evt s) = position s"
  by (simp_all add: startMove_def logMouseMove_def Let_def stopAnimation_fields
      stopAutorotate_fields)

lemma startAutorotate_fields:
  "autorotate_cb (startAutorotate s) = Some None"
  "animation_promise (startAutorotate s) = None"
  "orientation_cb (startAutorotate s) = False"
  "moving (startAutorotate s) = (moving s \<and> \<not> inertia_running s)"
  "position (startAutorotate s) = position s"
  by (simp_all add: startAutorotate_def trigger_def stopAll_fields)

lemma bound_between: "lo \<le> hi \<Longrightarrow> lo \<le> bound x lo hi \<and> bound x lo hi \<le> hi"
  by (simp add: bound_def)

lemma bound_mono: "x \<le> y \<Longrightarrow> bound x lo hi \<le> bound y lo hi"
  by (auto simp add: bound_def max_def min_def)

text \<open>The instance of the parameters at small angles and without ranges.\<close>

lemma floor_small: "0 \<le> x \<Longrightarrow> x < 4 \<Longrightarrow> \<lfloor>x / (2 * pi)\<rfloor> = 0"
proof -
  assume a: "0 \<le> x" "x < 4"
  have "2 \<le> pi" by (rule pi_ge_two)
  then have "x / (2 * pi) < 1" using a by (simp add: field_simps)
  moreover have "0 \<le> x / (2 * pi)" using a by simp
  ultimately show ?thesis by (simp add: floor_eq_iff)
qed

lemma spec_cleanPosition_small:
  assumes "0 \<le> longitude p" "longitude p < 4" "\<bar>latitude p\<bar> \<le> 1"
  shows "spec_cleanPosition s p = p"
proof -
  have "2 \<le> pi" by (rule pi_ge_two)
  then have "bound (latitude p) (- (pi / 2)) (pi / 2) = latitude p"
    using assms(3) by (auto simp add: bound_def max_def min_def)
  then show ?thesis
    using floor_small[OF assms(1,2)] by (simp add: spec_cleanPosition_def)
qed

lemma spec_applyRanges_free:
  "longitude_range (config s) = None \<Longrightarrow> latitude_range (config s) = None
     \<Longrightarrow> spec_applyRanges s p = (p, [])"
  by (simp add: spec_applyRanges_def)

lemma spec_env_fields:
  "cleanPosition spec_env = spec_cleanPosition" "applyRanges spec_env = spec_applyRanges"
  by (simp_all add: spec_env_def)

section \<open>Properties of zoom\<close>

lemma zoom_lvl_zoom: "zoom_lvl (zoom level s) = bound (of_int (Math_round level)) 0 100"
  by (simp add: zoom_def trigger_def Let_def)

lemma vFov_zoom:
  "vFov (zoom level s) =
     max_fov (config s) + (zoom_lvl (zoom level s) / 100) * (min_fov (config s) - max_fov (config s))"
  by (simp add: zoom_def trigger_def Let_def)

lemma config_zoom: "config (zoom level s) = config s"
  by (simp add: zoom_def trigger_def Let_def)

text \<open>
  C1. For every level, \<^verbatim>\<open>zoom(level)\<close> stores the rounded level clamped into [0,100] and the
  vertical field of view \<^verbatim>\<open>max_fov + (zoom_lvl / 100) * (min_fov - max_fov)\<close>. \<^verbatim>\<open>zoom(150)\<close>
  stores level 100, \<^verbatim>\<open>zoom(-10)\<close> level 0, and \<^verbatim>\<open>zoom(50)\<close> with \<^verbatim>\<open>min_fov = 30\<close> and
  \<^verbatim>\<open>max_fov = 90\<close> gives a vertical field of view of 60.
\<close>

theorem zoom_clamps_and_interpolates:
  "zoom_lvl (zoom level s) = of_int (max 0 (min 100 (Math_round level)))
   \<and> 0 \<le> zoom_lvl (zoom level s) \<and> zoom_lvl (zoom level s) \<le> 100
   \<and> vFov (zoom level s) =
       max_fov (config s) + (zoom_lvl (zoom level s) / 100) * (min_fov (config s) - max_fov (config s))
   \<and> zoom_lvl (zoom 150 s) = 100
   \<and> zoom_lvl (zoom (- 10) s) = 0
   \<and> vFov (zoom 50 (s\<lparr>config := (config s)\<lparr>min_fov := 30, max_fov := 90\<rparr>\<rparr>)) = 60"
proof -
  have lvl: "zoom_lvl (zoom level s) = of_int (max 0 (min 100 (Math_round level)))"
    by (simp add: zoom_lvl_zoom bound_def max_def min_def)
  have lo: "0 \<le> zoom_lvl (zoom level s)" and hi: "zoom_lvl (zoom level s) \<le> 100"
    by (simp_all add: zoom_lvl_zoom bound_def)
  have r150: "Math_round 150 = 150" and rm10: "Math_round (- 10) = - 10"
    and r50: "Math_round 50 = 50"
    by (simp_all add: Math_round_def)
  have a: "zoom_lvl (zoom 150 s) = 100"
    by (simp add: zoom_lvl_zoom r150 bound_def)
  have b: "zoom_lvl (zoom (- 10) s) = 0"
    by (simp add: zoom_lvl_zoom rm10 bound_def)
  have c: "vFov (zoom 50 (s\<lparr>config := (config s)\<lparr>min_fov := 30, max_fov := 90\<rparr>\<rparr>)) = 60"
    by (simp add: vFov_zoom zoom_lvl_zoom r50 bound_def)
  show ?thesis using lvl lo hi vFov_zoom a b c by blast
qed

section \<open>The mouse history\<close>

lemma sorted_remove_nth:
  assumes "sorted_wrt R h"
  shows "sorted_wrt R (take i h @ drop (Suc i) h)"
proof -
  have "sorted_wrt R (take i h @ drop i h)" using assms by simp
  then have a: "sorted_wrt R (take i h)" and b: "sorted_wrt R (drop i h)"
    and c: "\<forall>x\<in>set (take i h). \<forall>y\<in>set (drop i h). R x y"
    unfolding sorted_wrt_append by blast+
  have eq: "drop (Suc i) h = drop 1 (drop i h)" by simp
  have d: "sorted_wrt R (drop (Suc i) h)"
    unfolding eq using b by (rule sorted_wrt_drop)
  have e: "set (drop (Suc i) h) \<subseteq> set (drop i h)"
    unfolding eq by (rule set_drop_subset)
  show ?thesis unfolding sorted_wrt_append using a c d e by blast
qed

lemma in_order_hd: "in_order h \<Longrightarrow> s \<in> set h \<Longrightarrow> fst (hd h) \<le> fst s"
  by (cases h) (auto simp: in_order_def)

lemma entry_0: "entry s 0 = Some (fst s)"
  by (cases s) simp

lemma log_loop_set: "set (log_loop w now i previous h) \<subseteq> set h"
proof (induction w now i previous h rule: log_loop.induct)
  case (1 w now i previous h)
  show ?case
  proof (cases "i < length h")
    case False
    then show ?thesis by (simp add: log_loop.simps)
  next
    case True
    note lt = True
    show ?thesis
    proof (cases "js_less (entry (hd h) i) (real_of_int now - real w)")
      case True
      have "set (take i h @ drop (Suc i) h) \<subseteq> set h"
        by (auto dest: in_set_takeD in_set_dropD)
      with 1(1)[OF lt True] show ?thesis
        using lt True by (subst log_loop.simps) auto
    next
      case False
      note nl = False
      show ?thesis
      proof (cases "pause_after previous (entry (hd h) i) (real w / 10)")
        case True
        have "set (drop i h) \<subseteq> set h" by (auto dest: in_set_dropD)
        with 1(2)[OF lt nl True] show ?thesis
          using lt nl True by (subst log_loop.simps) auto
      next
        case False
        with 1(3)[OF lt nl False] show ?thesis
          using lt nl by (subst log_loop.simps) auto
      qed
    qed
  qed
qed

lemma log_loop_window:
  assumes "in_order h" and "0 < i \<Longrightarrow> h \<noteq> [] \<Longrightarrow> now - int w \<le> fst (hd h)"
  shows "\<forall>s\<in>set (log_loop w now i previous h). now - int w \<le> fst s"
  using assms
proof (induction w now i previous h rule: log_loop.induct)
  case (1 w now i previous h)
  show ?case
  proof (cases "i < length h")
    case False
    have "now - int w \<le> fst s" if "s \<in> set h" for s
    proof -
      from that have ne: "h \<noteq> []" by auto
      with False have "0 < i" by (cases h) auto
      with 1(5) ne have "now - int w \<le> fst (hd h)" by blast
      with in_order_hd[OF 1(4) that] show ?thesis by linarith
    qed
    with False show ?thesis by (simp add: log_loop.simps)
  next
    case True
    note lt = True
    then have ne: "h \<noteq> []" by auto
    show ?thesis
    proof (cases "js_less (entry (hd h) i) (real_of_int now - real w)")
      case True
      let ?h = "take i h @ drop (Suc i) h"
      have o: "in_order ?h"
        using 1(4) unfolding in_order_def by (rule sorted_remove_nth)
      have hd: "now - int w \<le> fst (hd ?h)" if "0 < i" "?h \<noteq> []"
      proof -
        from that(1) ne have "hd ?h = hd h" by (cases h) (auto simp: take_Suc_conv_app_nth gr0_conv_Suc)
        with 1(5) that(1) ne show ?thesis by simp
      qed
      from 1(1)[OF lt True o hd] show ?thesis
        using lt True by (subst log_loop.simps) simp
    next
      case False
      note nl = False
      show ?thesis
      proof (cases "pause_after previous (entry (hd h) i) (real w / 10)")
        case True
        have o: "in_order (drop i h)"
          using 1(4) unfolding in_order_def by (rule sorted_wrt_drop)
        from 1(2)[OF lt nl True o] show ?thesis
          using lt nl True by (subst log_loop.simps) simp
      next
        case False
        have hd: "now - int w \<le> fst (hd h)"
        proof (cases "i = 0")
          case True
          with nl show ?thesis by (simp add: js_less_def entry_0)
        next
          case False
          with 1(5) ne show ?thesis by simp
        qed
        from 1(3)[OF lt nl False 1(4) hd] show ?thesis
          using lt nl False by (subst log_loop.simps) simp
      qed
    qed
  qed
qed

lemma log_loop_order:
  assumes "in_order h"
  shows "in_order (log_loop w now i previous h)"
  using assms
proof (induction w now i previous h rule: log_loop.induct)
  case (1 w now i previous h)
  show ?case
  proof (cases "i < length h")
    case False
    with 1(4) show ?thesis by (simp add: log_loop.simps)
  next
    case True
    note lt = True
    show ?thesis
    proof (cases "js_less (entry (hd h) i) (real_of_int now - real w)")
      case True
      have o: "in_order (take i h @ drop (Suc i) h)"
        using 1(4) unfolding in_order_def by (rule sorted_remove_nth)
      from 1(1)[OF lt True o] show ?thesis
        using lt True by (subst log_loop.simps) simp
    next
      case False
      note nl = False
      show ?thesis
      proof (cases "pause_after previous (entry (hd h) i) (real w / 10)")
        case True
        have o: "in_order (drop i h)"
          using 1(4) unfolding in_order_def by (rule sorted_wrt_drop)
        from 1(2)[OF lt nl True o] show ?thesis
          using lt nl True by (subst log_loop.simps) simp
      next
        case False
        from 1(3)[OF lt nl False 1(4)] show ?thesis
          using lt nl False by (subst log_loop.simps) simp
      qed
    qed
  qed
qed

text \<open>
  What the loop does beyond the window: it compares entry \<^verbatim>\<open>i\<close> of the first sample, so from
  index 1 on it tests the first sample's coordinates against the clock. With a first sample
  at pixel (5, 6) and the clock at 1000 ms, every later sample is removed, the one just
  logged included; with a first sample at pixel (900, 900) none is.
\<close>

lemma log_loop_first_sample_entries:
  "log_loop 300 1000 0 None [(800, 5, 6), (850, 900, 900), (900, 901, 902), (1000, 903, 904)]
     = [(800, 5, 6)]"
  "log_loop 300 1000 0 None [(800, 900, 900), (850, 900, 900), (900, 901, 902), (1000, 903, 904)]
     = [(800, 900, 900), (850, 900, 900), (900, 901, 902), (1000, 903, 904)]"
  by (simp_all add: log_loop.simps js_less_def pause_after_def)

lemma in_order_snoc:
  assumes "in_order h" and "\<forall>x\<in>set h. fst x \<le> now"
  shows "in_order (h @ [(now, x, y)])"
  using assms by (simp add: in_order_def sorted_wrt_append)

lemma log_loop_single: "log_loop w now 0 None [(now, x, y)] = [(now, x, y)]"
  by (simp add: log_loop.simps js_less_def pause_after_def)

lemma mouse_history_startMove:
  "mouse_history (startMove e now evt s) = [(now, clientX evt, clientY evt)]"
  by (simp add: startMove_def logMouseMove_def Let_def log_loop_single)

text \<open>
  C7. The mouse history is a sequence of samples \<^verbatim>\<open>(timestamp, x, y)\<close> in the order of their
  clock readings. After every call of \<^verbatim>\<open>_logMouseMove\<close>, at a clock reading not before
  those of the samples already held, each retained sample was taken within the trailing
  \<^verbatim>\<open>INERTIA_WINDOW\<close> of the current time, and the history is still in order. At the start
  of a drag the history is emptied: after \<^verbatim>\<open>_startMove\<close> it holds the sample of the
  pointer-down alone.
\<close>

theorem mouse_history_window:
  assumes "in_order (mouse_history s)" and "\<forall>x\<in>set (mouse_history s). fst x \<le> now"
  shows "(\<forall>x\<in>set (mouse_history (logMouseMove e now evt s)).
            now - int (INERTIA_WINDOW e) \<le> fst x \<and> fst x \<le> now)
         \<and> in_order (mouse_history (logMouseMove e now evt s))
         \<and> mouse_history (startMove e now evt s0) = [(now, clientX evt, clientY evt)]"
proof -
  let ?h = "mouse_history s @ [(now, clientX evt, clientY evt)]"
  let ?r = "log_loop (INERTIA_WINDOW e) now 0 None ?h"
  have r: "mouse_history (logMouseMove e now evt s) = ?r"
    by (simp add: logMouseMove_def)
  have o: "in_order ?h" using assms by (rule in_order_snoc)
  have w: "\<forall>x\<in>set ?r. now - int (INERTIA_WINDOW e) \<le> fst x"
    by (rule log_loop_window[OF o]) simp
  have u: "\<forall>x\<in>set ?r. fst x \<le> now"
    using log_loop_set[of "INERTIA_WINDOW e" now 0 None ?h] assms(2) by auto
  have o': "in_order ?r" using o by (rule log_loop_order)
  show ?thesis using w u o' r mouse_history_startMove by simp
qed

theorem mouse_history_window_witness:
  "list_all (\<lambda>x. 1000 - 300 \<le> fst x \<and> fst x \<le> 1000)
     (mouse_history (logMouseMove spec_env 1000 \<lparr>clientX = 903, clientY = 904\<rparr> history_example))
   \<and> mouse_history (logMouseMove spec_env 1000 \<lparr>clientX = 903, clientY = 904\<rparr> history_example) \<noteq> []
   \<and> mouse_history (startMove spec_env 1000 \<lparr>clientX = 903, clientY = 904\<rparr> history_example)
       = [(1000, 903, 904)]"
proof -
  have a: "in_order (mouse_history history_example)"
    by (simp add: history_example_def in_order_def)
  have b: "\<forall>x\<in>set (mouse_history history_example). fst x \<le> 1000"
    by (simp add: history_example_def)
  have c: "mouse_history (logMouseMove spec_env 1000 \<lparr>clientX = 903, clientY = 904\<rparr> history_example) = [(800, 900, 900), (1000, 903, 904)]"
    by (simp add: logMouseMove_def history_example_def spec_env_def log_loop.simps js_less_def pause_after_def)
  show ?thesis
    using mouse_history_window[OF a b, of spec_env "\<lparr>clientX = 903, clientY = 904\<rparr>" history_example] c
    by (simp add: spec_env_def list_all_iff)
qed

section \<open>Loading a panorama while another load is pending\<close>

lemma setPanorama_pending:
  "fst (setPanorama e path pa tr s) = None \<Longrightarrow> loading_promise (snd (setPanorama e path pa tr s)) \<noteq> None"
  by (auto simp: setPanorama_def Let_def split: if_splits)

text \<open>
  C4. While the promise of an earlier \<^verbatim>\<open>setPanorama\<close> is unsettled, \<^verbatim>\<open>loading_promise\<close> is
  set; a call of \<^verbatim>\<open>setPanorama\<close> then throws \<^verbatim>\<open>Loading already in progress\<close> and leaves
  the viewer as it was: the configured panorama, the camera and the canvas are unchanged.
\<close>

theorem setPanorama_while_loading:
  assumes "loading_promise s \<noteq> None"
  shows "setPanorama e path pa tr s = (Some (PSVError ''Loading already in progress''), s)"
  using assms by (simp add: setPanorama_def)

theorem setPanorama_while_loading_witness:
  "fst (setPanorama spec_env ''first.jpg'' PosUndefined False (initial_viewer example_config)) = None
   \<and> setPanorama spec_env ''second.jpg'' (PosObject \<lparr>longitude = 1, latitude = 0\<rparr>) True
        (snd (setPanorama spec_env ''first.jpg'' PosUndefined False (initial_viewer example_config)))
       = (Some (PSVError ''Loading already in progress''),
          snd (setPanorama spec_env ''first.jpg'' PosUndefined False (initial_viewer example_config)))
   \<and> panorama (config (snd (setPanorama spec_env ''first.jpg'' PosUndefined False
         (initial_viewer example_config)))) = Some ''first.jpg''"
proof -
  let ?s = "snd (setPanorama spec_env ''first.jpg'' PosUndefined False (initial_viewer example_config))"
  have a: "fst (setPanorama spec_env ''first.jpg'' PosUndefined False (initial_viewer example_config)) = None"
    by (simp add: setPanorama_def initial_viewer_def example_config_def Let_def)
  have b: "loading_promise ?s \<noteq> None"
    using a by (rule setPanorama_pending)
  have c: "panorama (config ?s) = Some ''first.jpg''"
    by (simp add: setPanorama_def initial_viewer_def example_config_def Let_def)
  show ?thesis
    using a c setPanorama_while_loading[OF b, of spec_env "''second.jpg''"
        "PosObject \<lparr>longitude = 1, latitude = 0\<rparr>" True]
    by simp
qed

section \<open>Click and double click\<close>

lemma run_timeouts_idle: "dblclick_timeout s = None \<Longrightarrow> run_timeouts now s = s"
  by (simp add: run_timeouts_def)

lemma first_click:
  assumes "dblclick_timeout s = None"
  shows "click_at e t1 rect1 (Some h1) evt1 s =
           Inr ((trigger (Click (click_data s rect1 h1 evt1)) s)
                  \<lparr>dblclick_data := Some (click_data s rect1 h1 evt1),
                   dblclick_timeout := Some (t1 + int (DBLCLICK_DELAY e))\<rparr>)"
  using assms by (simp add: click_at_def run_timeouts_idle click_def Let_def)

lemma click_data_cong:
  "isCubemap s' = isCubemap s \<Longrightarrow> click_data s' rect h evt = click_data s rect h evt"
  by (simp add: click_data_def split: prod.splits)

lemma client_click_data:
  "client_x (click_data s rect h evt) = clientX evt"
  "client_y (click_data s rect h evt) = clientY evt"
  by (simp_all add: click_data_def split: prod.splits)

text \<open>
  Two pointer-ups classified as clicks, both with a ray that meets the sphere, the first
  landing when no double-click timeout is pending. If the second is handled before the
  timeout of the first is due and both client coordinates differ by less than
  \<^verbatim>\<open>MOVE_THRESHOLD\<close>, one \<^verbatim>\<open>click\<close> is sent for the first and then one \<^verbatim>\<open>dblclick\<close>
  with the data of the first. If the second is handled after the timeout is due, two
  \<^verbatim>\<open>click\<close> events are sent, each with its own data, and no \<^verbatim>\<open>dblclick\<close>.
\<close>

lemma second_click_state:
  assumes "dblclick_timeout s = None"
  shows "two_clicks e t1 rect1 (Some h1) evt1 t2 rect2 (Some h2) evt2 s
           = click_at e t2 rect2 (Some h2) evt2
               ((trigger (Click (click_data s rect1 h1 evt1)) s)
                  \<lparr>dblclick_data := Some (click_data s rect1 h1 evt1),
                   dblclick_timeout := Some (t1 + int (DBLCLICK_DELAY e))\<rparr>)"
  by (simp add: two_clicks_def first_click[OF assms])

lemma second_click_in_window:
  assumes "t2 < t1 + int (DBLCLICK_DELAY e)"
  shows "click_at e t2 rect2 intersect evt2
           (s1\<lparr>dblclick_data := Some d1, dblclick_timeout := Some (t1 + int (DBLCLICK_DELAY e))\<rparr>)
         = click e t2 rect2 intersect evt2
           (s1\<lparr>dblclick_data := Some d1, dblclick_timeout := Some (t1 + int (DBLCLICK_DELAY e))\<rparr>)"
proof -
  have "run_timeouts t2
          (s1\<lparr>dblclick_data := Some d1, dblclick_timeout := Some (t1 + int (DBLCLICK_DELAY e))\<rparr>)
        = s1\<lparr>dblclick_data := Some d1, dblclick_timeout := Some (t1 + int (DBLCLICK_DELAY e))\<rparr>"
    using assms by (simp add: run_timeouts_def)
  then show ?thesis by (simp only: click_at_def)
qed

lemma click_then_double_click:
  assumes "dblclick_timeout s = None"
  shows "(t2 < t1 + int (DBLCLICK_DELAY e)
            \<and> \<bar>clientX evt1 - clientX evt2\<bar> < MOVE_THRESHOLD e
            \<and> \<bar>clientY evt1 - clientY evt2\<bar> < MOVE_THRESHOLD e
          \<longrightarrow> (\<exists>s2. two_clicks e t1 rect1 (Some h1) evt1 t2 rect2 (Some h2) evt2 s = Inr s2
                \<and> events s2 = events s @ [Click (click_data s rect1 h1 evt1),
                                           DblClick (click_data s rect1 h1 evt1)]
                \<and> dblclick_timeout s2 = None \<and> dblclick_data s2 = None))
       \<and> (t1 + int (DBLCLICK_DELAY e) < t2
          \<longrightarrow> (\<exists>s2. two_clicks e t1 rect1 (Some h1) evt1 t2 rect2 (Some h2) evt2 s = Inr s2
                \<and> events s2 = events s @ [Click (click_data s rect1 h1 evt1),
                                           Click (click_data s rect2 h2 evt2)]))"
proof -
  let ?d1 = "click_data s rect1 h1 evt1"
  let ?s1 = "(trigger (Click ?d1) s)\<lparr>dblclick_data := Some ?d1,
               dblclick_timeout := Some (t1 + int (DBLCLICK_DELAY e))\<rparr>"
  note two = second_click_state[OF assms, of e t1 rect1 h1 evt1 t2 rect2 h2 evt2]
  have beyond: "run_timeouts t2 ?s1 = (trigger (Click ?d1) s)\<lparr>dblclick_data := None, dblclick_timeout := None\<rparr>"
    if "t1 + int (DBLCLICK_DELAY e) < t2"
    using that by (simp add: run_timeouts_def dblclick_expired_def)
  have late: "click_at e t2 rect2 (Some h2) evt2 ?s1
                = click e t2 rect2 (Some h2) evt2
                    ((trigger (Click ?d1) s)\<lparr>dblclick_data := None, dblclick_timeout := None\<rparr>)"
    if "t1 + int (DBLCLICK_DELAY e) < t2"
    by (simp only: click_at_def beyond[OF that])
  have A: "\<exists>s2. two_clicks e t1 rect1 (Some h1) evt1 t2 rect2 (Some h2) evt2 s = Inr s2
                \<and> events s2 = events s @ [Click ?d1, DblClick ?d1]
                \<and> dblclick_timeout s2 = None \<and> dblclick_data s2 = None"
    if "t2 < t1 + int (DBLCLICK_DELAY e)" "\<bar>clientX evt1 - clientX evt2\<bar> < MOVE_THRESHOLD e"
       "\<bar>clientY evt1 - clientY evt2\<bar> < MOVE_THRESHOLD e"
    unfolding two second_click_in_window[OF that(1)] using that(2,3)
    by (simp add: click_def Let_def client_click_data trigger_def)
  have B: "\<exists>s2. two_clicks e t1 rect1 (Some h1) evt1 t2 rect2 (Some h2) evt2 s = Inr s2
                \<and> events s2 = events s @ [Click ?d1, Click (click_data s rect2 h2 evt2)]"
    if "t1 + int (DBLCLICK_DELAY e) < t2"
    unfolding two late[OF that]
    by (simp add: click_def Let_def trigger_def click_data_def split: prod.splits)
  show ?thesis using A B by blast
qed

text \<open>
  C5, where the code departs from it. Two pointer-ups classified as clicks, both with a ray
  that meets the sphere, the first landing when no double-click timeout is pending, the second
  handled before the timeout of the first is due and with a client coordinate that differs by
  \<^verbatim>\<open>MOVE_THRESHOLD\<close> or more. The claim has two \<^verbatim>\<open>click\<close> events sent; \<^verbatim>\<open>_click\<close> sends
  the \<^verbatim>\<open>click\<close> of the first only: its \<^verbatim>\<open>else\<close> branch, taken while a timeout is
  pending, sends a \<^verbatim>\<open>dblclick\<close> for a near pointer or nothing at all, and clears the timeout
  and the stored data. The second click of the user is lost.
\<close>

theorem far_second_click_swallowed:
  assumes "dblclick_timeout s = None"
    and "t2 < t1 + int (DBLCLICK_DELAY e)"
    and "MOVE_THRESHOLD e \<le> \<bar>clientX evt1 - clientX evt2\<bar>
         \<or> MOVE_THRESHOLD e \<le> \<bar>clientY evt1 - clientY evt2\<bar>"
  shows "\<exists>s2. two_clicks e t1 rect1 (Some h1) evt1 t2 rect2 (Some h2) evt2 s = Inr s2
              \<and> events s2 = events s @ [Click (click_data s rect1 h1 evt1)]
              \<and> events s2 \<noteq> events s @ [Click (click_data s rect1 h1 evt1),
                                           Click (click_data s rect2 h2 evt2)]
              \<and> dblclick_timeout s2 = None \<and> dblclick_data s2 = None"
  unfolding second_click_state[OF assms(1)] second_click_in_window[OF assms(2)]
  using assms(3)
  by (auto simp add: click_def Let_def client_click_data trigger_def)

text \<open>
  Two clicks 100 ms apart and 190 pixels apart, with a double-click delay of 300 ms and a
  threshold of 4 pixels: the second click is within the window and beyond the threshold, and
  the viewer sends one \<^verbatim>\<open>click\<close>, not two.
\<close>

theorem far_second_click_swallowed_witness:
  "map_sum id events
     (two_clicks spec_env 0 (0, 0) (Some example_hit) \<lparr>clientX = 10, clientY = 10\<rparr>
        100 (0, 0) (Some example_hit) \<lparr>clientX = 200, clientY = 10\<rparr> (initial_viewer example_config))
     = Inr [Click \<lparr>client_x = 10, client_y = 10, viewer_x = 10, viewer_y = 10,
                   data_longitude = 0, data_latitude = 0,
                   texture_x = Some 5, texture_y = Some 6\<rparr>]
   \<and> map_sum id events
       (two_clicks spec_env 0 (0, 0) (Some example_hit) \<lparr>clientX = 10, clientY = 10\<rparr>
          100 (0, 0) (Some example_hit) \<lparr>clientX = 200, clientY = 10\<rparr> (initial_viewer example_config))
     \<noteq> Inr [Click \<lparr>client_x = 10, client_y = 10, viewer_x = 10, viewer_y = 10,
                   data_longitude = 0, data_latitude = 0,
                   texture_x = Some 5, texture_y = Some 6\<rparr>,
            Click \<lparr>client_x = 200, client_y = 10, viewer_x = 200, viewer_y = 10,
                   data_longitude = 0, data_latitude = 0,
                   texture_x = Some 5, texture_y = Some 6\<rparr>]"
proof -
  have idle: "dblclick_timeout (initial_viewer example_config) = None"
    by (simp add: initial_viewer_def)
  have ev: "events (initial_viewer example_config) = []"
    by (simp add: initial_viewer_def)
  have w: "(100::int) < 0 + int (DBLCLICK_DELAY spec_env)"
    by (simp add: spec_env_def)
  have f: "MOVE_THRESHOLD spec_env
             \<le> \<bar>clientX \<lparr>clientX = 10, clientY = 10\<rparr> - clientX \<lparr>clientX = 200, clientY = 10\<rparr>\<bar>
           \<or> MOVE_THRESHOLD spec_env
             \<le> \<bar>clientY \<lparr>clientX = 10, clientY = 10\<rparr> - clientY \<lparr>clientX = 200, clientY = 10\<rparr>\<bar>"
    by (simp add: spec_env_def)
  have d: "click_data (initial_viewer example_config) (0, 0) example_hit \<lparr>clientX = 10, clientY = 10\<rparr>
             = \<lparr>client_x = 10, client_y = 10, viewer_x = 10, viewer_y = 10,
                data_longitude = 0, data_latitude = 0,
                texture_x = Some 5, texture_y = Some 6\<rparr>"
    by (simp add: click_data_def example_hit_def initial_viewer_def)
  show ?thesis
    using far_second_click_swallowed[OF idle w f, of "(0, 0)" example_hit "(0, 0)" example_hit]
    unfolding ev d by auto
qed

section \<open>Autorotate\<close>

lemma on_side_reached_speed:
  "anim_speed (config (trigger_side_reached sd s)) =
     (if isAutorotateEnabled s \<and> (sd = LeftSide \<or> sd = RightSide)
      then - anim_speed (config s) else anim_speed (config s))"
  by (simp add: trigger_side_reached_def on_side_reached_def reverseAutorotate_def
      isAutorotateEnabled_def trigger_def)

text \<open>
  C6. While autorotate is registered, a \<^verbatim>\<open>before-render\<close> tick calls \<^verbatim>\<open>rotate\<close> with the
  longitude \<^verbatim>\<open>longitude + anim_speed * elapsed / 1000\<close>, \<^verbatim>\<open>elapsed\<close> being the milliseconds
  since the tick before (0 at the first tick), and the latitude
  \<^verbatim>\<open>latitude - (latitude - anim_lat) / 200\<close>, whose distance to \<^verbatim>\<open>anim_lat\<close> is 199/200 of
  the distance before. A \<^verbatim>\<open>_side-reached\<close> notification for left or right while autorotate
  is enabled reverses the direction (the sign of \<^verbatim>\<open>anim_speed\<close>); one for top or bottom
  leaves it.
\<close>

theorem autorotate_tick:
  assumes "autorotate_cb s = Some previous"
  shows "autorotate_update e timestamp s =
           rotate_view e
             \<lparr>longitude = longitude (position s)
                 + anim_speed (config s) * ((case previous of None \<Rightarrow> 0 | Some l \<Rightarrow> timestamp - l) / 1000),
              latitude = latitude (position s) - (latitude (position s) - anim_lat (config s)) / 200\<rparr>
             (s\<lparr>autorotate_cb := Some (Some timestamp)\<rparr>)
         \<and> (latitude (position s) - (latitude (position s) - anim_lat (config s)) / 200)
               - anim_lat (config s)
             = (199 / 200) * (latitude (position s) - anim_lat (config s))
         \<and> position (autorotate_update e timestamp s) =
             fst (applyRanges e (s\<lparr>autorotate_cb := Some (Some timestamp)\<rparr>)
                   (cleanPosition e (s\<lparr>autorotate_cb := Some (Some timestamp)\<rparr>)
                      \<lparr>longitude = longitude (position s)
                          + anim_speed (config s)
                            * ((case previous of None \<Rightarrow> 0 | Some l \<Rightarrow> timestamp - l) / 1000),
                       latitude = latitude (position s)
                          - (latitude (position s) - anim_lat (config s)) / 200\<rparr>))
         \<and> isAutorotateEnabled s
         \<and> anim_speed (config (trigger_side_reached LeftSide s)) = - anim_speed (config s)
         \<and> anim_speed (config (trigger_side_reached RightSide s)) = - anim_speed (config s)
         \<and> anim_speed (config (trigger_side_reached TopSide s)) = anim_speed (config s)
         \<and> anim_speed (config (trigger_side_reached BottomSide s)) = anim_speed (config s)"
proof -
  have en: "isAutorotateEnabled s"
    using assms by (simp add: isAutorotateEnabled_def)
  have tick: "autorotate_update e timestamp s =
           rotate_view e
             \<lparr>longitude = longitude (position s)
                 + anim_speed (config s) * ((case previous of None \<Rightarrow> 0 | Some l \<Rightarrow> timestamp - l) / 1000),
              latitude = latitude (position s) - (latitude (position s) - anim_lat (config s)) / 200\<rparr>
             (s\<lparr>autorotate_cb := Some (Some timestamp)\<rparr>)"
    using assms by (simp add: autorotate_update_def Let_def)
  have decay: "(latitude (position s) - (latitude (position s) - anim_lat (config s)) / 200)
               - anim_lat (config s)
             = (199 / 200) * (latitude (position s) - anim_lat (config s))"
    by (simp add: field_simps)
  show ?thesis
    using en decay unfolding tick by (simp add: on_side_reached_speed rotate_fields)
qed

theorem autorotate_tick_witness:
  "autorotate_cb autorotate_example = Some (Some 0)
   \<and> position (autorotate_update spec_env 1000 autorotate_example)
       = \<lparr>longitude = 1, latitude = 199 / 1000\<rparr>
   \<and> anim_speed (config (trigger_side_reached RightSide autorotate_example)) = - 1
   \<and> anim_speed (config (trigger_side_reached TopSide autorotate_example)) = 1"
proof -
  let ?s1 = "autorotate_example\<lparr>autorotate_cb := Some (Some 1000)\<rparr>"
  have cb: "autorotate_cb autorotate_example = Some (Some 0)"
    by (simp add: autorotate_example_def)
  have f: "position autorotate_example = \<lparr>longitude = 0, latitude = 1 / 5\<rparr>"
    "anim_speed (config autorotate_example) = 1" "anim_lat (config autorotate_example) = 0"
    "longitude_range (config ?s1) = None" "latitude_range (config ?s1) = None"
    by (simp_all add: autorotate_example_def startAutorotate_def trigger_def
        stopAll_fields example_config_def initial_viewer_def)
  have c: "spec_cleanPosition ?s1 \<lparr>longitude = 1, latitude = 199 / 1000\<rparr>
             = \<lparr>longitude = 1, latitude = 199 / 1000\<rparr>"
    by (rule spec_cleanPosition_small) simp_all
  have e: "cleanPosition spec_env = spec_cleanPosition" "applyRanges spec_env = spec_applyRanges"
    by (simp_all add: spec_env_def)
  note tick = autorotate_tick[OF cb, of spec_env 1000]
  have t: "position (autorotate_update spec_env 1000 autorotate_example)
             = fst (spec_applyRanges ?s1
                     (spec_cleanPosition ?s1 \<lparr>longitude = 1, latitude = 199 / 1000\<rparr>))"
    using tick[THEN conjunct2, THEN conjunct2, THEN conjunct1] by (simp add: f e)
  have r: "anim_speed (config (trigger_side_reached RightSide autorotate_example)) = - 1"
    and u: "anim_speed (config (trigger_side_reached TopSide autorotate_example)) = 1"
    using tick[THEN conjunct2, THEN conjunct2, THEN conjunct2, THEN conjunct2] by (simp_all add: f)
  show ?thesis
    using cb r u unfolding t c spec_applyRanges_free[OF f(4) f(5)] by simp
qed

section \<open>Animate\<close>

text \<open>
  C10, as the code has it. \<^verbatim>\<open>animate(position, duration)\<close> stops the drivers and cleans the
  target. If the duration is falsy, or the cleaned target is within \<^verbatim>\<open>ANGLE_THRESHOLD\<close> of
  the current position in both longitude and latitude, the stored numbers being compared as
  they are, it calls \<^verbatim>\<open>rotate\<close> with the cleaned target at once and returns a resolved
  promise: the camera is at the cleaned and range-constrained target, and no animation is
  started or left registered.
\<close>

theorem animate_immediate:
  assumes "\<not> truthy d
           \<or> (\<bar>longitude (cleanPosition e (stopAll s) p) - longitude (position s)\<bar> < ANGLE_THRESHOLD e
              \<and> \<bar>latitude (cleanPosition e (stopAll s) p) - latitude (position s)\<bar> < ANGLE_THRESHOLD e)"
  shows "animate e p d s = (Fulfilled, rotate_view e (cleanPosition e (stopAll s) p) (stopAll s))
         \<and> position (snd (animate e p d s)) =
             fst (applyRanges e (stopAll s)
                   (cleanPosition e (stopAll s) (cleanPosition e (stopAll s) p)))
         \<and> animation_promise (snd (animate e p d s)) = None
         \<and> \<not> isAutorotateEnabled (snd (animate e p d s))
         \<and> \<not> isGyroscopeEnabled (snd (animate e p d s))"
proof -
  have a: "animate e p d s = (Fulfilled, rotate_view e (cleanPosition e (stopAll s) p) (stopAll s))"
    using assms by (auto simp add: animate_def Let_def stopAll_fields)
  show ?thesis
    unfolding a
    by (simp add: rotate_fields stopAll_fields isAutorotateEnabled_def isGyroscopeEnabled_def)
qed

lemma animate_started:
  assumes "truthy d"
    and "\<not> (\<bar>longitude (cleanPosition e (stopAll s) p) - longitude (position s)\<bar> < ANGLE_THRESHOLD e
              \<and> \<bar>latitude (cleanPosition e (stopAll s) p) - latitude (position s)\<bar> < ANGLE_THRESHOLD e)"
  shows "fst (animate e p d s) = Pending"
    and "\<exists>a b. animation_promise (snd (animate e p d s)) = Some (Goto a b d)"
    and "\<not> isAutorotateEnabled (snd (animate e p d s))"
    and "\<not> isGyroscopeEnabled (snd (animate e p d s))"
    and "position (snd (animate e p d s)) = position s"
  using assms
  by (auto simp add: animate_def Let_def stopAll_fields fold_side_reached_fields
      isAutorotateEnabled_def isGyroscopeEnabled_def split: prod.splits)

theorem animate_immediate_witness:
  "animate spec_env \<lparr>longitude = 1, latitude = 1 / 2\<rparr> (DNum 0) autorotate_example
     = (Fulfilled,
        rotate_view spec_env \<lparr>longitude = 1, latitude = 1 / 2\<rparr> (stopAll autorotate_example))
   \<and> position (snd (animate spec_env \<lparr>longitude = 1, latitude = 1 / 2\<rparr> (DNum 0) autorotate_example))
       = \<lparr>longitude = 1, latitude = 1 / 2\<rparr>
   \<and> animation_promise
        (snd (animate spec_env \<lparr>longitude = 1, latitude = 1 / 2\<rparr> (DNum 0) autorotate_example)) = None
   \<and> fst (animate spec_env \<lparr>longitude = 0, latitude = 1 / 5\<rparr> (DNum 1000) autorotate_example)
       = Fulfilled"
proof -
  have e: "cleanPosition spec_env = spec_cleanPosition" "applyRanges spec_env = spec_applyRanges"
    by (simp_all add: spec_env_def)
  have c: "spec_cleanPosition s \<lparr>longitude = 1, latitude = 1 / 2\<rparr>
             = \<lparr>longitude = 1, latitude = 1 / 2\<rparr>" for s
    by (rule spec_cleanPosition_small) simp_all
  have r: "longitude_range (config (stopAll autorotate_example)) = None"
    "latitude_range (config (stopAll autorotate_example)) = None"
    by (simp_all add: stopAll_fields autorotate_example_def startAutorotate_def trigger_def
        initial_viewer_def example_config_def)
  have h: "\<not> truthy (DNum 0)" by simp
  have c': "spec_cleanPosition s \<lparr>longitude = 0, latitude = 1 / 5\<rparr>
             = \<lparr>longitude = 0, latitude = 1 / 5\<rparr>" for s
    by (rule spec_cleanPosition_small) simp_all
  have near: "\<bar>longitude (cleanPosition spec_env (stopAll autorotate_example)
                    \<lparr>longitude = 0, latitude = 1 / 5\<rparr>)
               - longitude (position autorotate_example)\<bar> < ANGLE_THRESHOLD spec_env
             \<and> \<bar>latitude (cleanPosition spec_env (stopAll autorotate_example)
                    \<lparr>longitude = 0, latitude = 1 / 5\<rparr>)
               - latitude (position autorotate_example)\<bar> < ANGLE_THRESHOLD spec_env"
    unfolding e c' by (simp add: autorotate_example_def spec_env_def)
  have second: "fst (animate spec_env \<lparr>longitude = 0, latitude = 1 / 5\<rparr> (DNum 1000)
                  autorotate_example) = Fulfilled"
    using animate_immediate[of "DNum 1000" spec_env autorotate_example
        "\<lparr>longitude = 0, latitude = 1 / 5\<rparr>", OF disjI2, OF near]
    by simp
  show ?thesis
    using animate_immediate[of "DNum 0" spec_env autorotate_example
        "\<lparr>longitude = 1, latitude = 1 / 2\<rparr>", OF disjI1, OF h] second
    unfolding e c spec_applyRanges_free[OF r] fst_conv by blast
qed

text \<open>
  The camera at longitude 1/2000 and a target at longitude -1/5000, 7/10000 of a radian away
  across the seam, with a threshold of 1/1000 and a duration of one second: the target is
  cleaned to \<^verbatim>\<open>2\<pi> - 1/5000\<close>, which is more than the threshold away from 1/2000 as a
  number, and \<^verbatim>\<open>animate\<close> starts an animation and returns its pending promise.
\<close>

theorem animate_across_seam_counterexample:
  "\<bar>longitude \<lparr>longitude = - (1 / 5000), latitude = 0\<rparr> - longitude (position seam_example)\<bar>
     < ANGLE_THRESHOLD spec_env
   \<and> \<bar>latitude \<lparr>longitude = - (1 / 5000), latitude = 0\<rparr> - latitude (position seam_example)\<bar>
     < ANGLE_THRESHOLD spec_env
   \<and> cleanPosition spec_env (stopAll seam_example) \<lparr>longitude = - (1 / 5000), latitude = 0\<rparr>
     = \<lparr>longitude = 2 * pi - 1 / 5000, latitude = 0\<rparr>
   \<and> fst (animate spec_env \<lparr>longitude = - (1 / 5000), latitude = 0\<rparr> (DNum 1000) seam_example)
     = Pending
   \<and> animation_promise
       (snd (animate spec_env \<lparr>longitude = - (1 / 5000), latitude = 0\<rparr> (DNum 1000) seam_example))
     \<noteq> None
   \<and> position (snd (animate spec_env \<lparr>longitude = - (1 / 5000), latitude = 0\<rparr> (DNum 1000)
                       seam_example))
     = \<lparr>longitude = 1 / 2000, latitude = 0\<rparr>"
proof -
  have p2: "2 \<le> pi" by (rule pi_ge_two)
  have pos: "position seam_example = \<lparr>longitude = 1 / 2000, latitude = 0\<rparr>"
    by (simp add: seam_example_def)
  have raw: "\<bar>longitude \<lparr>longitude = - (1 / 5000), latitude = 0\<rparr>
                - longitude (position seam_example)\<bar> < ANGLE_THRESHOLD spec_env"
    "\<bar>latitude \<lparr>longitude = - (1 / 5000), latitude = 0\<rparr>
       - latitude (position seam_example)\<bar> < ANGLE_THRESHOLD spec_env"
    by (simp_all add: pos spec_env_def)
  have "- 1 \<le> - (1 / 5000) / (2 * pi)" "- (1 / 5000) / (2 * pi) < 0"
    using p2 by (simp_all add: field_simps)
  then have fl: "\<lfloor>- (1 / 5000) / (2 * pi)\<rfloor> = - 1"
    by (simp add: floor_eq_iff)
  have b: "bound 0 (- (pi / 2)) (pi / 2) = 0"
    using p2 by (simp add: bound_def max_def min_def)
  have c: "cleanPosition spec_env (stopAll seam_example) \<lparr>longitude = - (1 / 5000), latitude = 0\<rparr>
             = \<lparr>longitude = 2 * pi - 1 / 5000, latitude = 0\<rparr>"
    unfolding spec_env_fields spec_cleanPosition_def using fl b by simp
  have far: "\<not> (\<bar>longitude (cleanPosition spec_env (stopAll seam_example)
                      \<lparr>longitude = - (1 / 5000), latitude = 0\<rparr>)
                  - longitude (position seam_example)\<bar> < ANGLE_THRESHOLD spec_env
               \<and> \<bar>latitude (cleanPosition spec_env (stopAll seam_example)
                      \<lparr>longitude = - (1 / 5000), latitude = 0\<rparr>)
                  - latitude (position seam_example)\<bar> < ANGLE_THRESHOLD spec_env)"
    unfolding c pos using p2 by (simp add: spec_env_def)
  have t: "truthy (DNum 1000)" by simp
  note s = animate_started[OF t far]
  have g: "animation_promise
       (snd (animate spec_env \<lparr>longitude = - (1 / 5000), latitude = 0\<rparr> (DNum 1000) seam_example))
     \<noteq> None"
    using s(2) by auto
  show ?thesis
    using raw c s(1) g s(5) pos by simp
qed

section \<open>One driver at a time\<close>






section \<open>Who writes the camera position\<close>

lemma through_rotate_same: "position s' = position s \<Longrightarrow> through_rotate e s s'"
  by (simp add: through_rotate_def)

lemma through_rotate_after:
  assumes "config s0 = config s" "position s0 = position s" "zoom_lvl s0 = zoom_lvl s"
    "vFov s0 = vFov s" "hFov s0 = hFov s"
    "s' = (rotate_view e p s0)\<lparr>mouse_x := a, mouse_y := b, mouse_history := h\<rparr>"
  shows "through_rotate e s s'"
proof -
  have "s' = (rotate_view e p s0)\<lparr>mouse_x := mouse_x s', mouse_y := mouse_y s',
                                   mouse_history := mouse_history s'\<rparr>"
    by (simp add: assms(6))
  then show ?thesis
    unfolding through_rotate_def using assms(1-5) by blast
qed

lemma rotate_view_through: "through_rotate e s (rotate_view e p s)"
  by (rule through_rotate_after[where ?s0.0 = s and p = p
        and a = "mouse_x (rotate_view e p s)" and b = "mouse_y (rotate_view e p s)"
        and h = "mouse_history (rotate_view e p s)"]) simp_all

lemma zoom_position: "position (zoom level s) = position s"
  by (simp add: zoom_def Let_def trigger_def)

lemma onKeyDown_through: "through_rotate e s (onKeyDown e k s)"
  by (simp add: onKeyDown_def Let_def rotate_view_through through_rotate_same zoom_position)

lemma autorotate_update_through: "through_rotate e s (autorotate_update e timestamp s)"
proof (cases "autorotate_cb s")
  case None
  then show ?thesis by (simp add: autorotate_update_def through_rotate_same)
next
  case (Some last_ts)
  define s1 where "s1 = s\<lparr>autorotate_cb := Some (Some timestamp)\<rparr>"
  define p where "p = \<lparr>longitude = longitude (position s1)
                                   + anim_speed (config s1) * (case last_ts of None \<Rightarrow> 0
                                       | Some l \<Rightarrow> timestamp - l) / 1000,
                       latitude = latitude (position s1)
                                  - (latitude (position s1) - anim_lat (config s1)) / 200\<rparr>"
  have r: "autorotate_update e timestamp s = rotate_view e p s1"
    using Some by (simp add: autorotate_update_def Let_def s1_def p_def)
  show ?thesis
    unfolding r
    by (rule through_rotate_after[where ?s0.0 = s1 and p = p
          and a = "mouse_x (rotate_view e p s1)" and b = "mouse_y (rotate_view e p s1)"
          and h = "mouse_history (rotate_view e p s1)"]) (simp_all add: s1_def)
qed

lemma stopAll_view:
  "zoom_lvl (stopAll s) = zoom_lvl s" "vFov (stopAll s) = vFov s" "hFov (stopAll s) = hFov s"
  by (simp_all add: stopAll_def stopAutorotate_def stopAnimation_def stopGyroscopeControl_def
      isAutorotateEnabled_def isGyroscopeEnabled_def trigger_def Let_def
      split: option.splits animation.splits)

lemma animate_through: "through_rotate e s (snd (animate e p d s))"
proof (cases "\<not> truthy d
            \<or> \<bar>longitude (cleanPosition e (stopAll s) p) - longitude (position (stopAll s))\<bar>
                < ANGLE_THRESHOLD e
              \<and> \<bar>latitude (cleanPosition e (stopAll s) p) - latitude (position (stopAll s))\<bar>
                < ANGLE_THRESHOLD e")
  case True
  then have r: "snd (animate e p d s) = rotate_view e (cleanPosition e (stopAll s) p) (stopAll s)"
    unfolding animate_def Let_def by (simp only: if_True snd_conv)
  show ?thesis
    unfolding r
    by (rule through_rotate_after[where ?s0.0 = "stopAll s"
          and p = "cleanPosition e (stopAll s) p"
          and a = "mouse_x (rotate_view e (cleanPosition e (stopAll s) p) (stopAll s))"
          and b = "mouse_y (rotate_view e (cleanPosition e (stopAll s) p) (stopAll s))"
          and h = "mouse_history (rotate_view e (cleanPosition e (stopAll s) p) (stopAll s))"])
      (simp_all add: stopAll_fields stopAll_view)
next
  case False
  then have "position (snd (animate e p d s)) = position s"
    unfolding animate_def Let_def if_not_P[OF False]
    by (simp add: stopAll_fields fold_side_reached_fields split: prod.splits)
  then show ?thesis by (rule through_rotate_same)
qed

lemma setPanorama_position: "position (snd (setPanorama e path pa tr s)) = position s"
  by (simp add: setPanorama_def Let_def stopAll_fields split: option.splits)

lemma move_through: "move e now logging evt s = Some s' \<Longrightarrow> through_rotate e s s'"
proof -
  assume m: "move e now logging evt s = Some s'"
  show ?thesis
  proof (cases "moving s")
    case False
    with m show ?thesis by (simp add: move_def through_rotate_same)
  next
    case True
    show ?thesis
    proof (cases "isGyroscopeEnabled s")
      case True
      with m \<open>moving s\<close> have "position s' = position s"
        by (auto simp add: move_def Let_def logMouseMove_fields split: option.splits if_splits)
      then show ?thesis by (rule through_rotate_same)
    next
      case False
      with m \<open>moving s\<close> obtain p where
        r: "s' = (if logging
                  then logMouseMove e now evt
                         ((rotate_view e p s)\<lparr>mouse_x := clientX evt, mouse_y := clientY evt\<rparr>)
                  else (rotate_view e p s)\<lparr>mouse_x := clientX evt, mouse_y := clientY evt\<rparr>)"
        by (auto simp add: move_def Let_def split: option.splits if_splits)
      have "\<exists>h. s' = (rotate_view e p s)\<lparr>mouse_x := clientX evt, mouse_y := clientY evt,
                                          mouse_history := h\<rparr>"
      proof (cases logging)
        case True
        with r have "s' = (rotate_view e p s)\<lparr>mouse_x := clientX evt, mouse_y := clientY evt,
                              mouse_history :=
                                log_loop (INERTIA_WINDOW e) now 0 None
                                  (mouse_history (rotate_view e p s)
                                     @ [(now, clientX evt, clientY evt)])\<rparr>"
          by (simp add: logMouseMove_def)
        then show ?thesis by blast
      next
        case False
        with r have "s' = (rotate_view e p s)\<lparr>mouse_x := clientX evt, mouse_y := clientY evt,
                              mouse_history := mouse_history (rotate_view e p s)\<rparr>"
          by simp
        then show ?thesis by blast
      qed
      then obtain h where
        "s' = (rotate_view e p s)\<lparr>mouse_x := clientX evt, mouse_y := clientY evt,
                                   mouse_history := h\<rparr>"
        by blast
      then show ?thesis
        by (rule through_rotate_after[where ?s0.0 = s, OF refl refl refl refl refl])
    qed
  qed
qed

lemma click_position: "click e now rect intersect evt s = Inr s' \<Longrightarrow> position s' = position s"
  by (auto simp add: click_def Let_def trigger_def split: option.splits if_splits)

lemma click_at_position:
  "click_at e now rect intersect evt s = Inr s' \<Longrightarrow> position s' = position s"
  by (auto simp add: click_at_def run_timeouts_def dblclick_expired_def
      dest!: click_position split: option.splits if_splits)

lemma stopMoveInertia_position: "stopMoveInertia e evt s = Inr s' \<Longrightarrow> position s' = position s"
  by (auto simp add: stopMoveInertia_def Let_def split: list.splits)

lemma stopMove_position:
  "stopMove e now in_hud rect intersect evt s = Inr s' \<Longrightarrow> position s' = position s"
  by (auto simp add: stopMove_def logMouseMove_fields
      dest!: click_at_position stopMoveInertia_position split: if_splits sum.splits)

lemma startGyroscopeControl_position:
  "startGyroscopeControl three supported alpha s = Inr (r, s') \<Longrightarrow> position s' = position s"
  by (auto simp add: startGyroscopeControl_def trigger_def stopAll_fields split: if_splits)

text \<open>
  What a change through \<^verbatim>\<open>rotate\<close> cannot do: with a latitude range configured, it leaves the
  camera where it was or at a latitude inside the range, and it ends with a
  \<^verbatim>\<open>position-updated\<close> notification.
\<close>

lemma through_rotate_in_range:
  assumes "through_rotate spec_env s s'" and "latitude_range (config s) = Some [a, b]"
    and "a \<le> b"
  shows "position s' = position s
         \<or> (a \<le> latitude (position s') \<and> latitude (position s') \<le> b)"
proof (cases "position s' = position s")
  case True
  then show ?thesis by simp
next
  case False
  with assms(1) obtain p s0 where c: "config s0 = config s"
    and r: "s' = (rotate_view spec_env p s0)\<lparr>mouse_x := mouse_x s', mouse_y := mouse_y s',
                                              mouse_history := mouse_history s'\<rparr>"
    unfolding through_rotate_def by blast
  have "position s' = position (rotate_view spec_env p s0)"
    by (subst r) simp
  then have "position s' = fst (spec_applyRanges s0 (spec_cleanPosition s0 p))"
    by (simp add: rotate_fields spec_env_fields)
  then have "a \<le> latitude (position s') \<and> latitude (position s') \<le> b"
    using assms(2,3) c by (simp add: spec_applyRanges_def Let_def split: prod.splits list.splits option.splits)
  then show ?thesis by simp
qed

lemma through_rotate_notifies:
  assumes "through_rotate e s s'"
  shows "position s' = position s
         \<or> (events s' \<noteq> [] \<and> last (events s') = PositionUpdated (position s') \<and> needsUpdate s')"
proof (cases "position s' = position s")
  case True
  then show ?thesis by simp
next
  case False
  with assms(1) obtain p s0 where
    r: "s' = (rotate_view e p s0)\<lparr>mouse_x := mouse_x s', mouse_y := mouse_y s',
                                   mouse_history := mouse_history s'\<rparr>"
    unfolding through_rotate_def by blast
  have "position s' = position (rotate_view e p s0)" "events s' = events (rotate_view e p s0)"
    "needsUpdate s' = needsUpdate (rotate_view e p s0)"
    by (subst r, simp)+
  then show ?thesis by (simp add: rotate_fields)
qed

text \<open>
  C2, as the code has it. The camera position is written in two places. \<^verbatim>\<open>rotate\<close> cleans
  its argument, applies the ranges, stores the result, sets the dirty flag and sends
  \<^verbatim>\<open>position-updated\<close>. The gyroscope's \<^verbatim>\<open>before-render\<close> callback stores the spherical
  coordinates of the device direction as they are and sets the dirty flag; it applies no
  range and sends no notification. Every other call (the public methods, the keyboard and
  pointer handlers, the autorotate callback, \<^verbatim>\<open>animate\<close>, \<^verbatim>\<open>setPanorama\<close>) leaves the
  position as it was or leaves the viewer as a call of \<^verbatim>\<open>rotate\<close> does, made from the same
  configuration, position and zoom, the pointer bookkeeping of \<^verbatim>\<open>_move\<close> apart.
\<close>

theorem position_written_through_rotate:
  assumes "perform e c s = Some s'" and "\<not> is_orientation_update c"
  shows "through_rotate e s s'
         \<and> position (rotate_view e p s) = fst (applyRanges e s (cleanPosition e s p))
         \<and> needsUpdate (rotate_view e p s)
         \<and> events (rotate_view e p s) =
              events s @ map SideReached (snd (applyRanges e s (cleanPosition e s p)))
                @ [PositionUpdated (position (rotate_view e p s))]
         \<and> position (orientation_update q s) = (if orientation_cb s then q else position s)
         \<and> events (orientation_update q s) = events s
         \<and> needsUpdate (orientation_update q s) = (orientation_cb s \<or> needsUpdate s)"
proof -
  have t: "through_rotate e s s'"
  proof (cases c)
    case (Rotate x)
    with assms show ?thesis by (auto simp: rotate_view_through)
  next
    case (Zoom x)
    with assms show ?thesis by (auto simp: zoom_position through_rotate_same)
  next
    case (KeyDown x)
    with assms show ?thesis by (auto simp: onKeyDown_through)
  next
    case StartAutorotate
    with assms show ?thesis by (auto simp: startAutorotate_fields through_rotate_same)
  next
    case StopAutorotate
    with assms show ?thesis by (auto simp: stopAutorotate_fields through_rotate_same)
  next
    case (AutorotateUpdate x)
    with assms show ?thesis by (auto simp: autorotate_update_through)
  next
    case (StartGyroscopeControl x1 x2 x3)
    with assms show ?thesis
      by (auto split: sum.splits dest!: startGyroscopeControl_position intro: through_rotate_same)
  next
    case StopGyroscopeControl
    with assms show ?thesis by (auto simp: stopGyroscopeControl_fields through_rotate_same)
  next
    case (OrientationUpdate x)
    with assms show ?thesis by simp
  next
    case (Animate x1 x2)
    with assms show ?thesis by (auto simp: animate_through)
  next
    case StopAnimation
    with assms show ?thesis by (auto simp: stopAnimation_fields through_rotate_same)
  next
    case (SetPanorama x1 x2 x3)
    have "position (snd (setPanorama e x1 x2 x3 s)) = position s"
      by (rule setPanorama_position)
    with assms SetPanorama show ?thesis
      by (auto split: prod.splits option.splits intro: through_rotate_same)
  next
    case (StartMove x1 x2)
    with assms show ?thesis by (auto simp: startMove_fields through_rotate_same)
  next
    case (Move x1 x2 x3)
    with assms show ?thesis by (auto dest: move_through)
  next
    case (StopMove x1 x2 x3 x4 x5)
    with assms show ?thesis
      by (auto split: sum.splits dest!: stopMove_position intro: through_rotate_same)
  qed
  have o: "position (orientation_update q s) = (if orientation_cb s then q else position s)"
    "events (orientation_update q s) = events s"
    "needsUpdate (orientation_update q s) = (orientation_cb s \<or> needsUpdate s)"
    by (auto simp add: orientation_update_def)
  show ?thesis
    using t o by (simp add: rotate_fields)
qed

theorem position_written_through_rotate_witness:
  "perform spec_env (Rotate \<lparr>longitude = 1, latitude = 1 / 2\<rparr>) autorotate_example
     = Some (rotate_view spec_env \<lparr>longitude = 1, latitude = 1 / 2\<rparr> autorotate_example)
   \<and> through_rotate spec_env autorotate_example
        (rotate_view spec_env \<lparr>longitude = 1, latitude = 1 / 2\<rparr> autorotate_example)
   \<and> position (rotate_view spec_env \<lparr>longitude = 1, latitude = 1 / 2\<rparr> autorotate_example)
       = \<lparr>longitude = 1, latitude = 1 / 2\<rparr>
   \<and> position autorotate_example = \<lparr>longitude = 0, latitude = 1 / 5\<rparr>"
proof -
  have a: "perform spec_env (Rotate \<lparr>longitude = 1, latitude = 1 / 2\<rparr>) autorotate_example
     = Some (rotate_view spec_env \<lparr>longitude = 1, latitude = 1 / 2\<rparr> autorotate_example)"
    by simp
  have b: "\<not> is_orientation_update (Rotate \<lparr>longitude = 1, latitude = 1 / 2\<rparr>)"
    by simp
  have c: "spec_cleanPosition autorotate_example \<lparr>longitude = 1, latitude = 1 / 2\<rparr>
             = \<lparr>longitude = 1, latitude = 1 / 2\<rparr>"
    by (rule spec_cleanPosition_small) simp_all
  have r: "longitude_range (config autorotate_example) = None"
    "latitude_range (config autorotate_example) = None"
    by (simp_all add: autorotate_example_def startAutorotate_def trigger_def stopAll_fields
        initial_viewer_def example_config_def)
  have p: "position autorotate_example = \<lparr>longitude = 0, latitude = 1 / 5\<rparr>"
    by (simp add: autorotate_example_def)
  note w = position_written_through_rotate[OF a b, of "\<lparr>longitude = 1, latitude = 1 / 2\<rparr>"]
  have w2: "position (rotate_view spec_env \<lparr>longitude = 1, latitude = 1 / 2\<rparr> autorotate_example)
       = \<lparr>longitude = 1, latitude = 1 / 2\<rparr>"
    using w[THEN conjunct2, THEN conjunct1]
    unfolding spec_env_fields c spec_applyRanges_free[OF r] by simp
  show ?thesis
    using a w[THEN conjunct1] w2 p by blast
qed

text \<open>
  Under gyroscope control, with the latitude confined to \<^verbatim>\<open>[-1/10, 1/10]\<close>: the callback
  moves the camera to latitude 1/2 and sends nothing, where \<^verbatim>\<open>rotate\<close> would have stopped
  at 1/10 and sent \<^verbatim>\<open>position-updated\<close>. The write is not one through \<^verbatim>\<open>rotate\<close>, and
  would not be one had the callback sent the notification itself.
\<close>

theorem gyroscope_writes_position_counterexample:
  "perform spec_env (OrientationUpdate \<lparr>longitude = 1, latitude = 1 / 2\<rparr>) gyro_example
     = Some (orientation_update \<lparr>longitude = 1, latitude = 1 / 2\<rparr> gyro_example)
   \<and> position gyro_example = \<lparr>longitude = 0, latitude = 0\<rparr>
   \<and> position (orientation_update \<lparr>longitude = 1, latitude = 1 / 2\<rparr> gyro_example)
       = \<lparr>longitude = 1, latitude = 1 / 2\<rparr>
   \<and> events (orientation_update \<lparr>longitude = 1, latitude = 1 / 2\<rparr> gyro_example)
       = [GyroscopeUpdated True]
   \<and> \<not> through_rotate spec_env gyro_example
          (orientation_update \<lparr>longitude = 1, latitude = 1 / 2\<rparr> gyro_example)
   \<and> \<not> through_rotate spec_env gyro_example
          (trigger (PositionUpdated \<lparr>longitude = 1, latitude = 1 / 2\<rparr>)
             (orientation_update \<lparr>longitude = 1, latitude = 1 / 2\<rparr> gyro_example))
   \<and> position (rotate_view spec_env \<lparr>longitude = 1, latitude = 1 / 2\<rparr> gyro_example)
       = \<lparr>longitude = 1, latitude = 1 / 10\<rparr>"
proof -
  have g: "orientation_cb gyro_example" "position gyro_example = \<lparr>longitude = 0, latitude = 0\<rparr>"
    "events gyro_example = [GyroscopeUpdated True]"
    "longitude_range (config gyro_example) = None"
    "latitude_range (config gyro_example) = Some [- (1 / 10), 1 / 10]"
    by (simp_all add: gyro_example_def trigger_def initial_viewer_def ranged_config_def
        example_config_def)
  have o: "position (orientation_update \<lparr>longitude = 1, latitude = 1 / 2\<rparr> gyro_example)
             = \<lparr>longitude = 1, latitude = 1 / 2\<rparr>"
    "events (orientation_update \<lparr>longitude = 1, latitude = 1 / 2\<rparr> gyro_example)
       = [GyroscopeUpdated True]"
    by (simp_all add: orientation_update_def g)
  have n: "\<not> through_rotate spec_env gyro_example
          (orientation_update \<lparr>longitude = 1, latitude = 1 / 2\<rparr> gyro_example)"
    using through_rotate_in_range[OF _ g(5),
        of "orientation_update \<lparr>longitude = 1, latitude = 1 / 2\<rparr> gyro_example"]
    by (auto simp add: o g)
  have o2: "position (trigger (PositionUpdated \<lparr>longitude = 1, latitude = 1 / 2\<rparr>)
             (orientation_update \<lparr>longitude = 1, latitude = 1 / 2\<rparr> gyro_example))
             = \<lparr>longitude = 1, latitude = 1 / 2\<rparr>"
    by (simp add: trigger_def o)
  have n2: "\<not> through_rotate spec_env gyro_example
          (trigger (PositionUpdated \<lparr>longitude = 1, latitude = 1 / 2\<rparr>)
             (orientation_update \<lparr>longitude = 1, latitude = 1 / 2\<rparr> gyro_example))"
    using through_rotate_in_range[OF _ g(5),
        of "trigger (PositionUpdated \<lparr>longitude = 1, latitude = 1 / 2\<rparr>)
             (orientation_update \<lparr>longitude = 1, latitude = 1 / 2\<rparr> gyro_example)"]
    by (auto simp add: o2 g)
  have c: "spec_cleanPosition gyro_example \<lparr>longitude = 1, latitude = 1 / 2\<rparr>
             = \<lparr>longitude = 1, latitude = 1 / 2\<rparr>"
    by (rule spec_cleanPosition_small) simp_all
  have r: "position (rotate_view spec_env \<lparr>longitude = 1, latitude = 1 / 2\<rparr> gyro_example)
       = \<lparr>longitude = 1, latitude = 1 / 10\<rparr>"
    unfolding rotate_fields spec_env_fields c
    by (simp add: spec_applyRanges_def g)
  show ?thesis
    using g(2) o n n2 r by simp
qed

section \<open>The checks of the constructor\<close>

lemma isInteger_zero: "isInteger 0"
  by (simp add: isInteger_def)

lemma check_longitude_range_eq:
  "check_longitude_range (c, ws) =
     (c\<lparr>longitude_range :=
          (case longitude_range c of None \<Rightarrow> None
           | Some r \<Rightarrow> if length r = 2 then Some r else None)\<rparr>,
      ws @ (case longitude_range c of None \<Rightarrow> []
            | Some r \<Rightarrow> if length r = 2 then []
                        else [''longitude_range must have exactly two elements.'']))"
  by (simp add: check_longitude_range_def split: option.splits)

lemma check_fov_order_eq:
  "check_fov_order (c, ws) =
     (c\<lparr>max_fov := max (min_fov c) (max_fov c), min_fov := min (min_fov c) (max_fov c)\<rparr>,
      ws @ (if max_fov c < min_fov c then [''max_fov cannot be lower than min_fov.''] else []))"
  by (simp add: check_fov_order_def max_def min_def)

lemma check_cache_texture_eq:
  "check_cache_texture sys (c, ws) =
     (c\<lparr>cache_texture :=
          (if \<not> isInteger (cache_texture c) \<or> cache_texture c < 0
           then default_cache_texture sys else cache_texture c)\<rparr>,
      ws @ (if \<not> isInteger (cache_texture c) \<or> cache_texture c < 0
            then [''invalid value for cache_texture''] else []))"
  using isInteger_zero by (auto simp add: check_cache_texture_def)

lemma check_latitude_range_fields:
  "longitude_range (fst (check_latitude_range (c, ws))) = longitude_range c"
  "min_fov (fst (check_latitude_range (c, ws))) = min_fov c"
  "max_fov (fst (check_latitude_range (c, ws))) = max_fov c"
  "cache_texture (fst (check_latitude_range (c, ws))) = cache_texture c"
  "default_fov (fst (check_latitude_range (c, ws))) = default_fov c"
  by (simp_all add: check_latitude_range_def split: option.splits)

lemma check_latitude_range_given:
  "latitude_range c = Some r \<Longrightarrow>
     latitude_range (fst (check_latitude_range (c, ws))) =
       (if length r \<noteq> 2 then None else if r ! 0 > r ! 1 then Some [r ! 1, r ! 0] else Some r)
     \<and> snd (check_latitude_range (c, ws)) =
         ws @ (if length r \<noteq> 2 then [''latitude_range must have exactly two elements.'']
               else if r ! 0 > r ! 1 then [''latitude_range values must be ordered.''] else [])"
  by (simp add: check_latitude_range_def)

lemma set_default_fov_fields:
  "longitude_range (fst (set_default_fov (c, ws))) = longitude_range c"
  "latitude_range (fst (set_default_fov (c, ws))) = latitude_range c"
  "min_fov (fst (set_default_fov (c, ws))) = min_fov c"
  "max_fov (fst (set_default_fov (c, ws))) = max_fov c"
  "cache_texture (fst (set_default_fov (c, ws))) = cache_texture c"
  "snd (set_default_fov (c, ws)) = ws"
  "default_fov (fst (set_default_fov (c, ws))) =
     Some (case default_fov c of None \<Rightarrow> max_fov c / 2 + min_fov c / 2
           | Some d \<Rightarrow> bound d (min_fov c) (max_fov c))"
  by (simp_all add: set_default_fov_def split: option.splits)

lemma bound_fov_eq:
  "bound_fov (c, ws) =
     (c\<lparr>min_fov := bound (min_fov c) 1 179, max_fov := bound (max_fov c) 1 179\<rparr>, ws)"
  by (simp add: bound_fov_def Let_def)

lemma check_config_ok:
  assumes "container sys" "isCanvasSupported sys"
    "(isWebGLSupported sys \<and> webgl c) \<or> canvas_renderer sys"
  shows "check_config sys c =
           Inr (set_default_fov (bound_fov (check_cache_texture sys (check_fov_order
                  (check_latitude_range (check_longitude_range (c, [])))))))"
  using assms by (auto simp add: check_config_def)

text \<open>
  C8. When the container is given and the browser can render, the constructor's checks do not
  throw, whatever the ranges and bounds: a \<^verbatim>\<open>longitude_range\<close> or \<^verbatim>\<open>latitude_range\<close> that
  has not exactly two elements becomes \<^verbatim>\<open>null\<close>, an inverted \<^verbatim>\<open>latitude_range\<close> is put in
  ascending order, inverted \<^verbatim>\<open>min_fov\<close> and \<^verbatim>\<open>max_fov\<close> are swapped, and afterwards
  \<^verbatim>\<open>min_fov \<le> max_fov\<close> with both in \<^verbatim>\<open>[1, 179]\<close>; a \<^verbatim>\<open>cache_texture\<close> that is not an
  integer or is negative becomes the default. Each correction sends its warning, and the
  constructor goes on with the corrected configuration.
\<close>

theorem malformed_config_recovered:
  assumes "container sys" and "isCanvasSupported sys"
    and "(isWebGLSupported sys \<and> webgl c) \<or> canvas_renderer sys"
  shows "\<exists>c' ws. check_config sys c = Inr (c', ws)
    \<and> (\<forall>r. longitude_range c = Some r \<and> length r \<noteq> 2 \<longrightarrow>
          longitude_range c' = None
          \<and> ''longitude_range must have exactly two elements.'' \<in> set ws)
    \<and> (\<forall>r. latitude_range c = Some r \<and> length r \<noteq> 2 \<longrightarrow>
          latitude_range c' = None
          \<and> ''latitude_range must have exactly two elements.'' \<in> set ws)
    \<and> (\<forall>a b. latitude_range c = Some [a, b] \<and> b < a \<longrightarrow>
          latitude_range c' = Some [b, a]
          \<and> ''latitude_range values must be ordered.'' \<in> set ws)
    \<and> (max_fov c < min_fov c \<longrightarrow>
          min_fov c' = bound (max_fov c) 1 179 \<and> max_fov c' = bound (min_fov c) 1 179
          \<and> ''max_fov cannot be lower than min_fov.'' \<in> set ws)
    \<and> min_fov c' \<le> max_fov c' \<and> 1 \<le> min_fov c' \<and> max_fov c' \<le> 179
    \<and> (\<not> isInteger (cache_texture c) \<or> cache_texture c < 0 \<longrightarrow>
          cache_texture c' = default_cache_texture sys
          \<and> ''invalid value for cache_texture'' \<in> set ws)"
proof -
  obtain c1 w1 where l1: "check_longitude_range (c, []) = (c1, w1)"
    by (cases "check_longitude_range (c, [])")
  obtain c2 w2 where l2: "check_latitude_range (c1, w1) = (c2, w2)"
    by (cases "check_latitude_range (c1, w1)")
  let ?c3 = "c2\<lparr>max_fov := max (min_fov c2) (max_fov c2), min_fov := min (min_fov c2) (max_fov c2)\<rparr>"
  let ?w3 = "w2 @ (if max_fov c2 < min_fov c2 then [''max_fov cannot be lower than min_fov.''] else [])"
  let ?bad = "\<not> isInteger (cache_texture c) \<or> cache_texture c < 0"
  let ?c4 = "?c3\<lparr>cache_texture := (if ?bad then default_cache_texture sys else cache_texture c)\<rparr>"
  let ?w4 = "?w3 @ (if ?bad then [''invalid value for cache_texture''] else [])"
  let ?c5 = "?c4\<lparr>min_fov := bound (min_fov ?c4) 1 179, max_fov := bound (max_fov ?c4) 1 179\<rparr>"
  let ?c' = "fst (set_default_fov (?c5, ?w4))"
  have f1: "longitude_range c1 =
              (case longitude_range c of None \<Rightarrow> None
               | Some r \<Rightarrow> if length r = 2 then Some r else None)"
    "latitude_range c1 = latitude_range c" "min_fov c1 = min_fov c" "max_fov c1 = max_fov c"
    "cache_texture c1 = cache_texture c"
    and w1: "w1 = (case longitude_range c of None \<Rightarrow> []
            | Some r \<Rightarrow> if length r = 2 then []
                        else [''longitude_range must have exactly two elements.''])"
    using l1 unfolding check_longitude_range_eq by auto
  have f2: "longitude_range c2 = longitude_range c1" "min_fov c2 = min_fov c"
    "max_fov c2 = max_fov c" "cache_texture c2 = cache_texture c"
    using check_latitude_range_fields[of c1 w1] unfolding l2 by (simp_all add: f1)
  have lat: "latitude_range c2 =
       (if length r \<noteq> 2 then None else if r ! 0 > r ! 1 then Some [r ! 1, r ! 0] else Some r)
     \<and> w2 = w1 @ (if length r \<noteq> 2 then [''latitude_range must have exactly two elements.'']
               else if r ! 0 > r ! 1 then [''latitude_range values must be ordered.''] else [])"
    if "latitude_range c = Some r" for r
    using check_latitude_range_given[of c1 r w1] that unfolding l2 by (simp add: f1)
  have w12: "set w1 \<subseteq> set w2"
    using l2 by (auto simp add: check_latitude_range_def split: option.splits if_splits)
  have res: "check_config sys c = Inr (?c', ?w4)"
    unfolding check_config_ok[OF assms] l1 l2 check_fov_order_eq
    by (simp add: check_cache_texture_eq f2 bound_fov_eq set_default_fov_fields
        prod_eq_iff)
  have g: "longitude_range ?c' = longitude_range c2" "latitude_range ?c' = latitude_range c2"
    "min_fov ?c' = bound (min (min_fov c) (max_fov c)) 1 179"
    "max_fov ?c' = bound (max (min_fov c) (max_fov c)) 1 179"
    "cache_texture ?c' = (if ?bad then default_cache_texture sys else cache_texture c)"
    by (simp_all add: set_default_fov_fields f2)
  have A: "longitude_range ?c' = None
          \<and> ''longitude_range must have exactly two elements.'' \<in> set ?w4"
    if "longitude_range c = Some r \<and> length r \<noteq> 2" for r
    unfolding g using that w12 by (auto simp add: f2 f1 w1)
  have B: "latitude_range ?c' = None
          \<and> ''latitude_range must have exactly two elements.'' \<in> set ?w4"
    if "latitude_range c = Some r \<and> length r \<noteq> 2" for r
    unfolding g using that lat[of r] by simp
  have C: "latitude_range ?c' = Some [b, a]
          \<and> ''latitude_range values must be ordered.'' \<in> set ?w4"
    if "latitude_range c = Some [a, b] \<and> b < a" for a b
    unfolding g using that lat[of "[a, b]"] by simp
  have D: "min_fov ?c' = bound (max_fov c) 1 179 \<and> max_fov ?c' = bound (min_fov c) 1 179
          \<and> ''max_fov cannot be lower than min_fov.'' \<in> set ?w4"
    if "max_fov c < min_fov c"
    unfolding g using that by (simp add: f2 max_def min_def)
  have E: "min_fov ?c' \<le> max_fov ?c' \<and> 1 \<le> min_fov ?c' \<and> max_fov ?c' \<le> 179"
    unfolding g using bound_mono[of "min (min_fov c) (max_fov c)" "max (min_fov c) (max_fov c)" 1 179]
      bound_between[of 1 179]
    by simp
  have F: "cache_texture ?c' = default_cache_texture sys
          \<and> ''invalid value for cache_texture'' \<in> set ?w4"
    if "?bad"
    unfolding g using that by simp
  show ?thesis
    using res A B C D E F by blast
qed

theorem malformed_config_recovered_witness:
  "check_config example_system malformed_config =
     Inr (example_config\<lparr>longitude_range := None, latitude_range := Some [- (1 / 2), 1 / 2],
            min_fov := 1, max_fov := 179, cache_texture := 0, default_fov := Some 90\<rparr>,
          [''longitude_range must have exactly two elements.'',
           ''latitude_range values must be ordered.'',
           ''max_fov cannot be lower than min_fov.'',
           ''invalid value for cache_texture''])"
proof -
  have a: "container example_system" "isCanvasSupported example_system"
    "(isWebGLSupported example_system \<and> webgl malformed_config) \<or> canvas_renderer example_system"
    by (simp_all add: example_system_def malformed_config_def example_config_def)
  have i: "\<not> isInteger (5 / 2)"
    by (simp add: isInteger_def)
  show ?thesis
    using malformed_config_recovered[OF a]
    by (simp add: check_config_def check_longitude_range_def check_latitude_range_def
        check_fov_order_def check_cache_texture_def bound_fov_def set_default_fov_def
        example_system_def malformed_config_def example_config_def bound_def i Let_def)
qed

section \<open>The default zoom level\<close>

lemma Math_round_near: "\<bar>real_of_int (Math_round x) - x\<bar> \<le> 1 / 2"
  unfolding Math_round_def by linarith

lemma Math_round_int: "Math_round (real_of_int n) = n"
  unfolding Math_round_def by linarith

lemma Math_round_range:
  assumes "0 \<le> x" "x \<le> 100"
  shows "0 \<le> Math_round x" "Math_round x \<le> 100"
  using assms unfolding Math_round_def by linarith+

lemma abs_scale: "0 < a \<Longrightarrow> \<bar>a * (b / 100)\<bar> = a * (\<bar>b\<bar> / 100)" for a b :: real
  by (simp add: abs_mult)

text \<open>With \<^verbatim>\<open>min_fov < max_fov\<close> and the default field of view between them, the default
  zoom level is an integer from 0 to 100 whose field of view is within half a level's step of
  the default.\<close>

lemma default_zoom_level:
  assumes "min_fov (config s) < max_fov (config s)"
    and "default_fov (config s) = Some d"
    and "min_fov (config s) \<le> d" and "d \<le> max_fov (config s)"
  shows "\<exists>s' n. default_zoom s = Some s' \<and> zoom_lvl s' = real_of_int n \<and> 0 \<le> n \<and> n \<le> 100
           \<and> n = 100 - Math_round ((d - min_fov (config s)) / (max_fov (config s) - min_fov (config s)) * 100)
           \<and> \<bar>vFov s' - d\<bar> \<le> (max_fov (config s) - min_fov (config s)) / 200"
proof -
  let ?lo = "min_fov (config s)" and ?hi = "max_fov (config s)"
  let ?q = "(d - ?lo) / (?hi - ?lo)"
  let ?t = "Math_round (?q * 100)"
  have pos: "0 < ?hi - ?lo" using assms(1) by simp
  have q: "0 \<le> ?q" "?q \<le> 1" using assms pos by (simp_all add: field_simps)
  have q100: "0 \<le> ?q * 100" "?q * 100 \<le> 100"
    using mult_nonneg_nonneg[OF q(1), of 100] mult_right_mono[OF q(2), of 100] by simp_all
  have t: "0 \<le> ?t" "?t \<le> 100" using Math_round_range[OF q100] by simp_all
  have ne: "?hi - ?lo \<noteq> 0" using pos by simp
  have tz: "tempZoom (config s) = Some (real_of_int ?t)"
    unfolding tempZoom_def js_div_def assms(2) option.case if_not_P[OF ne] ..
  have arg: "real_of_int ?t - 2 * (real_of_int ?t - 50) = real_of_int (100 - ?t)"
    by simp
  have dz: "default_zoom s = Some (zoom (real_of_int (100 - ?t)) s)"
    unfolding default_zoom_def tz using arg by simp
  have lvl: "zoom_lvl (zoom (real_of_int (100 - ?t)) s) = real_of_int (100 - ?t)"
    using t unfolding zoom_lvl_zoom Math_round_int by (simp add: bound_def)
  have vf: "vFov (zoom (real_of_int (100 - ?t)) s)
              = ?hi + (real_of_int (100 - ?t) / 100) * (?lo - ?hi)"
    unfolding vFov_zoom lvl ..
  have d: "d = ?lo + ?q * (?hi - ?lo)" using pos by simp
  have "vFov (zoom (real_of_int (100 - ?t)) s) - d
          = (?hi - ?lo) * ((real_of_int ?t - ?q * 100) / 100)"
    unfolding vf by (subst (2) d) (simp add: field_simps)
  then have "\<bar>vFov (zoom (real_of_int (100 - ?t)) s) - d\<bar>
          = \<bar>(?hi - ?lo) * ((real_of_int ?t - ?q * 100) / 100)\<bar>"
    by (rule arg_cong)
  also have "\<dots> = (?hi - ?lo) * (\<bar>real_of_int ?t - ?q * 100\<bar> / 100)"
    using pos by (rule abs_scale)
  finally have "\<bar>vFov (zoom (real_of_int (100 - ?t)) s) - d\<bar>
          = (?hi - ?lo) * (\<bar>real_of_int ?t - ?q * 100\<bar> / 100)" .
  also have "\<dots> \<le> (?hi - ?lo) * ((1 / 2) / 100)"
    using Math_round_near[of "?q * 100"] pos by (intro mult_left_mono) simp_all
  finally have near: "\<bar>vFov (zoom (real_of_int (100 - ?t)) s) - d\<bar> \<le> (?hi - ?lo) / 200"
    by simp
  show ?thesis
    using dz lvl t near by auto
qed

text \<open>With no default configured, the checked default is the midpoint and the level is 50.\<close>

lemma default_zoom_midpoint:
  assumes "min_fov (config s) < max_fov (config s)"
    and "default_fov (config s) = Some (max_fov (config s) / 2 + min_fov (config s) / 2)"
  shows "\<exists>s'. default_zoom s = Some s' \<and> zoom_lvl s' = 50
           \<and> vFov s' = (min_fov (config s) + max_fov (config s)) / 2"
proof -
  let ?lo = "min_fov (config s)" and ?hi = "max_fov (config s)"
  have pos: "0 < ?hi - ?lo" using assms(1) by simp
  have ne: "?hi - ?lo \<noteq> 0" using pos by simp
  have half: "(?hi / 2 + ?lo / 2 - ?lo) / (?hi - ?lo) = 1 / 2"
    using pos by (simp add: field_simps)
  have "tempZoom (config s) = Some (real_of_int (Math_round (1 / 2 * 100)))"
    unfolding tempZoom_def js_div_def assms(2) option.case if_not_P[OF ne] half ..
  then have tz: "tempZoom (config s) = Some 50"
    by (simp add: Math_round_def)
  have dz: "default_zoom s = Some (zoom 50 s)"
    unfolding default_zoom_def tz by simp
  have r: "Math_round 50 = 50" by (simp add: Math_round_def)
  have lvl: "zoom_lvl (zoom 50 s) = 50"
    unfolding zoom_lvl_zoom r by (simp add: bound_def)
  have "vFov (zoom 50 s) = (?lo + ?hi) / 2"
    unfolding vFov_zoom lvl by (simp add: field_simps)
  with dz lvl show ?thesis by simp
qed

lemma check_config_default_fov:
  assumes "check_config sys c = Inr (c', ws)"
  shows "default_fov c' =
           Some (case default_fov c of None \<Rightarrow> max_fov c' / 2 + min_fov c' / 2
                 | Some d \<Rightarrow> bound d (min_fov c') (max_fov c'))"
    and "min_fov c' \<le> max_fov c'"
proof -
  obtain c1 w1 where l1: "check_longitude_range (c, []) = (c1, w1)"
    by (cases "check_longitude_range (c, [])")
  obtain c2 w2 where l2: "check_latitude_range (c1, w1) = (c2, w2)"
    by (cases "check_latitude_range (c1, w1)")
  obtain c5 w5 where l5: "bound_fov (check_cache_texture sys (check_fov_order (c2, w2))) = (c5, w5)"
    by (cases "bound_fov (check_cache_texture sys (check_fov_order (c2, w2)))")
  have d1: "default_fov c1 = default_fov c"
    using l1 unfolding check_longitude_range_eq by auto
  have d2: "default_fov c2 = default_fov c" "min_fov c2 = min_fov c" "max_fov c2 = max_fov c"
    using check_latitude_range_fields[of c1 w1] l1 unfolding l2 check_longitude_range_eq
    by (auto simp add: d1)
  have d5: "default_fov c5 = default_fov c"
    "min_fov c5 = bound (min (min_fov c) (max_fov c)) 1 179"
    "max_fov c5 = bound (max (min_fov c) (max_fov c)) 1 179"
    using l5 unfolding check_fov_order_eq check_cache_texture_eq bound_fov_eq
    by (auto simp add: d2)
  have c': "c' = fst (set_default_fov (c5, w5))"
    using assms unfolding check_config_def l1 l2 l5 by (simp split: if_splits)
  show "default_fov c' =
           Some (case default_fov c of None \<Rightarrow> max_fov c' / 2 + min_fov c' / 2
                 | Some d \<Rightarrow> bound d (min_fov c') (max_fov c'))"
    unfolding c' by (simp add: set_default_fov_fields d5 split: option.splits)
  show "min_fov c' \<le> max_fov c'"
    unfolding c' using bound_mono[of "min (min_fov c) (max_fov c)" "max (min_fov c) (max_fov c)" 1 179]
    by (simp add: set_default_fov_fields d5)
qed

text \<open>
  After the checks, with \<^verbatim>\<open>min_fov < max_fov\<close>: the default zoom level is an integer from 0
  to 100; it is 50, with the midpoint as field of view, when no default was configured, and
  otherwise its field of view is within half a level's step of the clamped default.
\<close>

lemma default_zoom_after_checks:
  assumes "check_config sys c = Inr (c', ws)" and "config s = c'"
    and "min_fov c' < max_fov c'"
  shows "\<exists>s' n. default_zoom s = Some s' \<and> zoom_lvl s' = real_of_int n \<and> 0 \<le> n \<and> n \<le> 100
           \<and> (default_fov c = None \<longrightarrow>
                 n = 50 \<and> vFov s' = (min_fov c' + max_fov c') / 2)
           \<and> (\<forall>d. default_fov c = Some d \<longrightarrow>
                 \<bar>vFov s' - bound d (min_fov c') (max_fov c')\<bar>
                   \<le> (max_fov c' - min_fov c') / 200)"
proof (cases "default_fov c")
  case None
  have mid: "default_fov (config s) = Some (max_fov (config s) / 2 + min_fov (config s) / 2)"
    using check_config_default_fov(1)[OF assms(1)] None assms(2) by simp
  have m: "min_fov (config s) < max_fov (config s)"
    using assms(2,3) by simp
  from default_zoom_midpoint[OF m mid]
  obtain s' where "default_zoom s = Some s'" "zoom_lvl s' = 50"
    "vFov s' = (min_fov c' + max_fov c') / 2"
    unfolding assms(2) by blast
  with None show ?thesis
    by (intro exI[of _ s'] exI[of _ 50]) simp
next
  case (Some d)
  let ?d = "bound d (min_fov c') (max_fov c')"
  have df: "default_fov (config s) = Some ?d"
    using check_config_default_fov(1)[OF assms(1)] Some assms(2) by simp
  have b: "min_fov (config s) \<le> ?d" "?d \<le> max_fov (config s)"
    using bound_between[of "min_fov c'" "max_fov c'" d] assms(2,3) by simp_all
  have m: "min_fov (config s) < max_fov (config s)"
    using assms(2,3) by simp
  from default_zoom_level[OF m df b]
  obtain s' n where "default_zoom s = Some s'" "zoom_lvl s' = real_of_int n" "0 \<le> n" "n \<le> 100"
    "\<bar>vFov s' - ?d\<bar> \<le> (max_fov (config s) - min_fov (config s)) / 200"
    by blast
  with Some assms(2) show ?thesis
    by (intro exI[of _ s'] exI[of _ n]) simp
qed

lemma default_zoom_equal_bounds:
  "min_fov (config s) = max_fov (config s) \<Longrightarrow> default_zoom s = None"
  by (simp add: default_zoom_def tempZoom_def js_div_def)

text \<open>
  C9 at \<^verbatim>\<open>min_fov = max_fov = 60\<close>. The checks leave both bounds at 60 and set the default
  field of view to 60; \<^verbatim>\<open>tempZoom\<close> is then 0/0, and \<^verbatim>\<open>zoom\<close> is called with \<^verbatim>\<open>NaN\<close>
  instead of an integer level.
\<close>

theorem default_zoom_fixed_fov:
  "check_config example_system fixed_fov_config = Inr (fixed_fov_checked, [])
   \<and> tempZoom fixed_fov_checked = None
   \<and> default_zoom (initial_viewer fixed_fov_checked) = None"
  by (simp add: check_config_def check_longitude_range_def check_latitude_range_def
      check_fov_order_def check_cache_texture_def bound_fov_def set_default_fov_def
      example_system_def fixed_fov_config_def fixed_fov_checked_def example_config_def
      bound_def Let_def default_zoom_def tempZoom_def js_div_def initial_viewer_def)

theorem default_zoom_fixed_fov_witness:
  "map_sum id (\<lambda>cw. default_zoom (initial_viewer (fst cw)))
     (check_config example_system fixed_fov_config) = Inr None"
  using default_zoom_fixed_fov by simp

end
